theory Spec2Isabelle
  imports Complex_Main "HOL-Library.AList" "HOL-Library.Log_Nat"
begin

section \<open>Values shared by the models\<close>

text \<open>
  JSON values, as \<open>JSON.parse\<close> produces them and as \<open>res.json\<close> sends them. An
  object is an association list of its own properties; a property that is absent reads
  as \<open>undefined\<close>, which is \<open>None\<close> in \<open>get_field\<close>.
\<close>

datatype json =
    JNull
  | JBool bool
  | JNum rat
  | JStr string
  | JArr "json list"
  | JObj "(string \<times> json) list"

fun get_field :: "json \<Rightarrow> string \<Rightarrow> json option" where
  "get_field (JObj kvs) k = map_of kvs k"
| "get_field _ k = None"

text \<open>An HTTP response as the handlers build it: \<open>res.status(code).json(body)\<close>.\<close>

record response =
  status :: nat
  body :: json

type_synonym oid = string

section \<open>The Recipe document (models/Recipe.js)\<close>

text \<open>
  A schema path of type Number holds a number, \<open>null\<close>, or nothing (\<open>undefined\<close>).
  \<open>js_add\<close> is JavaScript's \<open>+\<close> on such values: \<open>null\<close> counts as 0 and
  \<open>undefined\<close> gives \<open>NaN\<close>. The numbers of a cooking time are rationals here and
  their sum is not rounded; the average of the ratings, further down, is rounded as a
  double.
\<close>

datatype jsnum = Undefined | Null | Num rat | NaN

fun js_add :: "jsnum \<Rightarrow> jsnum \<Rightarrow> jsnum" where
  "js_add (Num a) (Num b) = Num (a + b)"
| "js_add (Num a) Null = Num a"
| "js_add Null (Num b) = Num b"
| "js_add Null Null = Num 0"
| "js_add _ _ = NaN"

record cookingTime =
  prep :: jsnum
  cook :: jsnum
  totalTime :: jsnum

text \<open>
  One entry of \<open>ratings\<close>: the fields \<open>user\<close>, \<open>rating\<close>, \<open>comment\<close> and
  \<open>createdAt\<close> of the schema (the selectors carry the prefix \<open>rt_\<close>). An absent
  comment is \<open>None\<close>; times are milliseconds.
\<close>

record rating =
  rt_user :: oid
  rt_rating :: rat
  rt_comment :: "string option"
  rt_createdAt :: nat

record recipe =
  rid :: oid
  inputIngredients :: "string list"
  cookingTime :: cookingTime
  isPublic :: bool
  ratings :: "rating list"
  averageRating :: rat
  totalRatings :: nat
  views :: nat
  savedByUsers :: "oid list"
  createdAt :: nat

text \<open>
  The schema gives \<open>cookingTime.prep\<close>, \<open>cook\<close> and \<open>total\<close> the default 0: a
  document built through the model (\<open>Recipe.create\<close>, or a stored document loaded by
  \<open>findById\<close>) has the default wherever the value is \<open>undefined\<close>.
\<close>

definition default0 :: "jsnum \<Rightarrow> jsnum" where
  "default0 v = (if v = Undefined then Num 0 else v)"

definition apply_defaults :: "recipe \<Rightarrow> recipe" where
  "apply_defaults r =
     r\<lparr>cookingTime :=
        \<lparr>prep = default0 (prep (cookingTime r)),
         cook = default0 (cook (cookingTime r)),
         totalTime = default0 (totalTime (cookingTime r))\<rparr>\<rparr>"

text \<open>\<open>recipeSchema.pre("save")\<close>: the hook that runs before every save.\<close>

definition pre_save :: "recipe \<Rightarrow> recipe" where
  "pre_save r =
     (if prep (cookingTime r) \<noteq> Undefined \<and> cook (cookingTime r) \<noteq> Undefined
      then r\<lparr>cookingTime :=
               (cookingTime r)\<lparr>totalTime := js_add (prep (cookingTime r)) (cook (cookingTime r))\<rparr>\<rparr>
      else r)"



text \<open>
  Rating values and the average are doubles. A finite double is the rational it stands
  for, and \<open>+\<close> and \<open>/\<close> give the double nearest to the exact result, ties going
  to the even significand: 53 binary digits, with the fixed spacing \<open>2^-1074\<close> below
  \<open>2^-1022\<close>. Results beyond the largest double (the code gets \<open>Infinity\<close>) are
  outside the model; the schema bounds a rating by 5.
\<close>

definition pow2 :: "int \<Rightarrow> rat" where
  "pow2 e = (if 0 \<le> e then 2 ^ nat e else 1 / 2 ^ nat (- e))"

definition round_half_even :: "rat \<Rightarrow> int" where
  "round_half_even x =
     (let f = \<lfloor>x\<rfloor>; d = x - of_int f
      in if d < 1 / 2 then f else if 1 / 2 < d then f + 1 else if even f then f else f + 1)"

text \<open>The binary exponent of a positive rational: \<open>2^e \<le> a < 2^(e+1)\<close>.\<close>

definition exponent :: "rat \<Rightarrow> int" where
  "exponent a = (if 1 \<le> a then bitlen \<lfloor>a\<rfloor> - 1 else - bitlen (\<lceil>1 / a\<rceil> - 1))"

definition round_to_double :: "rat \<Rightarrow> rat" where
  "round_to_double q =
     (if q = 0 then 0
      else let a = \<bar>q\<bar>;
               e = max (exponent a) (- 1022);
               quantum = pow2 (e - 52)
           in sgn q * of_int (round_half_even (a / quantum)) * quantum)"

definition double_add :: "rat \<Rightarrow> rat \<Rightarrow> rat" where
  "double_add a b = round_to_double (a + b)"

definition double_div :: "rat \<Rightarrow> rat \<Rightarrow> rat" where
  "double_div a b = round_to_double (a / b)"

text \<open>\<open>recipeSchema.methods.updateAverageRating\<close>.\<close>

definition updateAverageRating :: "recipe \<Rightarrow> recipe" where
  "updateAverageRating r =
     (if length (ratings r) = 0
      then r\<lparr>averageRating := 0, totalRatings := 0\<rparr>
      else
        let sum = foldl (\<lambda>acc x. double_add acc (rt_rating x)) 0 (ratings r)
        in r\<lparr>averageRating := double_div sum (of_nat (length (ratings r))),
              totalRatings := length (ratings r)\<rparr>)"

text \<open>
  The rating values the route admits (\<open>isInt({min: 1, max: 5})\<close>), and the exact
  arithmetic mean of the rating values of a list.
\<close>

definition valid_rating :: "rat \<Rightarrow> bool" where
  "valid_rating v = (v \<in> {1, 2, 3, 4, 5})"

definition mean :: "rating list \<Rightarrow> rat" where
  "mean rs = sum_list (map rt_rating rs) / of_nat (length rs)"

section \<open>Rating a recipe (recipeController.rateRecipe)\<close>

text \<open>\<open>Array.prototype.findIndex\<close>; JavaScript's \<open>-1\<close> is \<open>None\<close>.\<close>

fun findIndex :: "('a \<Rightarrow> bool) \<Rightarrow> 'a list \<Rightarrow> nat option" where
  "findIndex p [] = None"
| "findIndex p (x # xs) =
     (if p x then Some 0 else map_option Suc (findIndex p xs))"

text \<open>
  The body of the handler between loading the recipe and saving it: find the caller's
  entry, overwrite it or push a new one (whose \<open>createdAt\<close> defaults to the current
  time), then recompute the average.
\<close>

definition rate_document :: "oid \<Rightarrow> nat \<Rightarrow> rat \<Rightarrow> string option \<Rightarrow> recipe \<Rightarrow> recipe" where
  "rate_document uid now rating comment recipe =
     (let existingRatingIndex = findIndex (\<lambda>r. rt_user r = uid) (ratings recipe);
          recipe1 =
            (case existingRatingIndex of
               Some i \<Rightarrow>
                 recipe\<lparr>ratings :=
                   (ratings recipe)[i := (ratings recipe ! i)
                      \<lparr>rt_rating := rating, rt_comment := comment, rt_createdAt := now\<rparr>]\<rparr>
             | None \<Rightarrow>
                 recipe\<lparr>ratings :=
                   ratings recipe @
                     [\<lparr>rt_user = uid, rt_rating = rating, rt_comment = comment,
                       rt_createdAt = now\<rparr>]\<rparr>)
      in updateAverageRating recipe1)"

text \<open>The ratings entry that the handler writes for the caller.\<close>

definition rated :: "oid \<Rightarrow> nat \<Rightarrow> rat \<Rightarrow> string option \<Rightarrow> rating" where
  "rated uid now rating comment =
     \<lparr>rt_user = uid, rt_rating = rating, rt_comment = comment, rt_createdAt = now\<rparr>"

section \<open>The User document and the store\<close>

text \<open>
  The fields of models/User.js. The schema has \<open>timestamps: true\<close>, so a user also
  carries \<open>updatedAt\<close>, which the store sets on every write of the document.
  \<open>password\<close> is the stored hash; \<open>avatar\<close> is \<open>null\<close> (\<open>None\<close>) by default; the
  preferences sub-document is kept as a JSON value.
\<close>

record user =
  usr_id :: oid
  name :: string
  email :: string
  password :: string
  avatar :: "string option"
  preferences :: json
  savedRecipes :: "oid list"
  u_createdAt :: nat
  lastLoginAt :: nat
  isActive :: bool
  updatedAt :: nat

text \<open>The two collections, keyed by \<open>_id\<close>.\<close>

record db =
  recipes :: "oid \<rightharpoonup> recipe"
  users :: "oid \<rightharpoonup> user"

text \<open>
  \<open>user.save()\<close>: the password hook does nothing unless the password was replaced, and
  a document with no modified path is not written; a modified one is written with a new
  \<open>updatedAt\<close>. \<open>loaded\<close> is the document as \<open>findById\<close> returned it.
\<close>

definition user_save :: "nat \<Rightarrow> user \<Rightarrow> user \<Rightarrow> user" where
  "user_save now loaded doc = (if doc = loaded then loaded else doc\<lparr>updatedAt := now\<rparr>)"

definition message_body :: "bool \<Rightarrow> string \<Rightarrow> json" where
  "message_body ok msg = JObj [(''success'', JBool ok), (''message'', JStr msg)]"

section \<open>Saving and unsaving a recipe (recipeController.saveRecipe, unsaveRecipe)\<close>

text \<open>
  Both handlers take the store, the time, the caller's id (\<open>req.user._id\<close>) and the
  route parameter \<open>id\<close>, and return the response with the store they leave. The
  store's operations are taken to succeed; a caller whose user document is gone makes
  \<open>user.savedRecipes\<close> throw, which the \<open>catch\<close> turns into the 500.
\<close>

definition saveRecipe :: "db \<Rightarrow> nat \<Rightarrow> oid \<Rightarrow> oid \<Rightarrow> response \<times> db" where
  "saveRecipe d now uid rcp =
     (case recipes d rcp of
        None \<Rightarrow> (\<lparr>status = 404, body = message_body False ''Recipe not found''\<rparr>, d)
      | Some stored \<Rightarrow>
          (case users d uid of
             None \<Rightarrow> (\<lparr>status = 500, body = message_body False ''Failed to save recipe''\<rparr>, d)
           | Some usr \<Rightarrow>
               let recipe = apply_defaults stored in
               if rid recipe \<in> set (savedRecipes usr)
               then (\<lparr>status = 400, body = message_body False ''Recipe already saved''\<rparr>, d)
               else
                 let usr1 = usr\<lparr>savedRecipes := savedRecipes usr @ [rid recipe]\<rparr>;
                     d1 = d\<lparr>users := (users d)(uid \<mapsto> user_save now usr usr1)\<rparr>;
                     d2 = (if usr_id usr1 \<notin> set (savedByUsers recipe)
                           then d1\<lparr>recipes := (recipes d1)(rcp \<mapsto>
                                  pre_save (recipe\<lparr>savedByUsers :=
                                     savedByUsers recipe @ [usr_id usr1]\<rparr>))\<rparr>
                           else d1)
                 in (\<lparr>status = 200, body = message_body True ''Recipe saved successfully''\<rparr>,
                     d2)))"

definition unsaveRecipe :: "db \<Rightarrow> nat \<Rightarrow> oid \<Rightarrow> oid \<Rightarrow> response \<times> db" where
  "unsaveRecipe d now uid rcp =
     (case recipes d rcp of
        None \<Rightarrow> (\<lparr>status = 404, body = message_body False ''Recipe not found''\<rparr>, d)
      | Some stored \<Rightarrow>
          (case users d uid of
             None \<Rightarrow> (\<lparr>status = 500, body = message_body False ''Failed to remove recipe''\<rparr>, d)
           | Some usr \<Rightarrow>
               let recipe = apply_defaults stored;
                   usr1 = usr\<lparr>savedRecipes :=
                            filter (\<lambda>recipeId. recipeId \<noteq> rid recipe) (savedRecipes usr)\<rparr>;
                   d1 = d\<lparr>users := (users d)(uid \<mapsto> user_save now usr usr1)\<rparr>;
                   recipe1 = recipe\<lparr>savedByUsers :=
                               filter (\<lambda>userId. userId \<noteq> usr_id usr1) (savedByUsers recipe)\<rparr>;
                   d2 = d1\<lparr>recipes := (recipes d1)(rcp \<mapsto> pre_save recipe1)\<rparr>
               in (\<lparr>status = 200,
                    body = message_body True ''Recipe removed from saved recipes''\<rparr>, d2)))"

section \<open>Searching by ingredients (Recipe.findByIngredients)\<close>

text \<open>
  \<open>String.prototype.includes\<close>, and the test of \<open>new RegExp(ing, "i")\<close> for an
  ingredient word without regular-expression metacharacters: the word occurs in the
  text, letters compared without case.
\<close>

fun startsWith :: "'a list \<Rightarrow> 'a list \<Rightarrow> bool" where
  "startsWith s [] = True"
| "startsWith [] (p # ps) = False"
| "startsWith (c # cs) (p # ps) = (c = p \<and> startsWith cs ps)"

fun js_includes :: "'a list \<Rightarrow> 'a list \<Rightarrow> bool" where
  "js_includes [] p = (p = [])"
| "js_includes (c # cs) p = (startsWith (c # cs) p \<or> js_includes cs p)"

definition toLowerCase_char :: "char \<Rightarrow> char" where
  "toLowerCase_char c =
     (let n = (of_char c :: nat)
      in if 65 \<le> n \<and> n \<le> 90 then char_of (n + 32) else c)"

definition regex_test_i :: "string \<Rightarrow> string \<Rightarrow> bool" where
  "regex_test_i pattern s = js_includes (map toLowerCase_char s) (map toLowerCase_char pattern)"

text \<open>
  The values the pipeline compares: the strings of \<open>inputIngredients\<close> and the regular
  expressions built from the request. The store has two operators named \<open>$in\<close>. In a
  query (\<open>$match\<close>), a regular expression in the list is matched against each element
  of the array field. In an expression (\<open>$addFields\<close>), \<open>$in\<close> asks whether the value
  is equal to an element of the list; it does not match by regular expression, and a
  string is never equal to a regular expression.
\<close>

datatype bson = BString string | BRegex string

fun query_in_matches :: "bson \<Rightarrow> bson \<Rightarrow> bool" where
  "query_in_matches (BString s) (BRegex p) = regex_test_i p s"
| "query_in_matches v w = (v = w)"

definition query_in :: "bson list \<Rightarrow> bson list \<Rightarrow> bool" where
  "query_in field_values candidates =
     (\<exists>v \<in> set field_values. \<exists>c \<in> set candidates. query_in_matches v c)"

definition expr_in :: "bson \<Rightarrow> bson list \<Rightarrow> bool" where
  "expr_in v candidates = (v \<in> set candidates)"

record find_options =
  limit :: nat
  skip :: nat
  minMatch :: nat

text \<open>
  The aggregation pipeline, stage by stage, over the recipes in store order. Each
  result is the recipe with its added field \<open>matchCount\<close>. The handler never passes
  \<open>sortBy\<close> or \<open>sortOrder\<close>, so the second sort key is \<open>createdAt\<close>, descending.
\<close>

definition findByIngredients :: "recipe list \<Rightarrow> string list \<Rightarrow> find_options \<Rightarrow> (recipe \<times> nat) list" where
  "findByIngredients store ingredients options =
     (let regexes = map BRegex ingredients;
          matched = filter (\<lambda>r. query_in (map BString (inputIngredients r)) regexes \<and> isPublic r) store;
          counted = map (\<lambda>r. (r, length (filter (\<lambda>this. expr_in (BString this) regexes)
                                              (inputIngredients r)))) matched;
          enough = filter (\<lambda>(r, matchCount). minMatch options \<le> matchCount) counted;
          sorted = sort_key (\<lambda>(r, matchCount). - int matchCount)
                     (sort_key (\<lambda>(r, matchCount). - int (createdAt r)) enough)
      in take (limit options) (drop (skip options) sorted))"

definition chicken_broccoli :: recipe where
  "chicken_broccoli =
     \<lparr>rid = ''r1'', inputIngredients = [''chicken'', ''broccoli''],
      cookingTime = \<lparr>prep = Num 15, cook = Num 30, totalTime = Num 45\<rparr>,
      isPublic = True, ratings = [], averageRating = 0, totalRatings = 0, views = 0,
      savedByUsers = [], createdAt = 1000\<rparr>"

section \<open>The timeout guard (middleware/timeout.js)\<close>

text \<open>
  What the middleware reads of a request, and the state of one response: whether the
  headers have gone out, the responses written to the client, the number of sends
  refused because the headers had gone out (the original \<open>res.json\<close> throws then and
  writes nothing), the deadline of the pending timer (\<open>None\<close> once it is cleared or
  has fired), and the clock in milliseconds.
\<close>

record request =
  originalUrl :: string
  http_method :: string
  req_id :: "string option"

record res =
  headersSent :: bool
  sent :: "response list"
  refused :: nat
  timer :: "nat option"
  clock :: nat

text \<open>
  \<open>toISOString\<close> stands for \<open>new Date().toISOString()\<close>: the text of a time. It is a parameter
  wherever a handler stamps its response.
\<close>

definition timeout_body :: "(nat \<Rightarrow> string) \<Rightarrow> request \<Rightarrow> nat \<Rightarrow> nat \<Rightarrow> json" where
  "timeout_body toISOString req duration now =
     JObj [(''success'', JBool False),
           (''message'',
            JStr ''Request timeout. The server took too long to respond. Please try again.''),
           (''error'',
            JObj [(''type'', JStr ''TimeoutError''),
                  (''timestamp'', JStr (toISOString now)),
                  (''path'', JStr (originalUrl req)),
                  (''method'', JStr (http_method req)),
                  (''timeout'', JNum (of_nat duration))])]"

text \<open>The original \<open>res.json\<close>, \<open>res.send\<close> and \<open>res.end\<close> of the framework.\<close>

definition original_send :: "response \<Rightarrow> res \<Rightarrow> res" where
  "original_send r s =
     (if headersSent s then s\<lparr>refused := refused s + 1\<rparr>
      else s\<lparr>sent := sent s @ [r], headersSent := True\<rparr>)"

text \<open>The three wrappers the middleware installs: clear the timer, then send.\<close>

definition wrapped_send :: "response \<Rightarrow> res \<Rightarrow> res" where
  "wrapped_send r s = original_send r (s\<lparr>timer := None\<rparr>)"

text \<open>The callback given to \<open>setTimeout\<close>.\<close>

definition on_timeout :: "(nat \<Rightarrow> string) \<Rightarrow> request \<Rightarrow> nat \<Rightarrow> res \<Rightarrow> res" where
  "on_timeout toISOString req duration s =
     (if \<not> headersSent s
      then wrapped_send \<lparr>status = 408, body = timeout_body toISOString req duration (clock s)\<rparr> s
      else s)"

text \<open>
  The delay \<open>setTimeout\<close> gives a timer: the number of milliseconds asked for when it
  lies between 1 and \<open>2^31 - 1\<close>, and 1 millisecond otherwise.
\<close>

definition TIMEOUT_MAX :: nat where
  "TIMEOUT_MAX = 2147483647"

definition setTimeout_delay :: "nat \<Rightarrow> nat" where
  "setTimeout_delay after = (if 1 \<le> after \<and> after \<le> TIMEOUT_MAX then after else 1)"

text \<open>
  \<open>timeout(duration)\<close> applied to a request whose response has not started: the timer
  is set and \<open>next()\<close> is called.
\<close>

definition timeout :: "nat \<Rightarrow> nat \<Rightarrow> res" where
  "timeout duration now =
     \<lparr>headersSent = False, sent = [], refused = 0,
      timer = Some (now + setTimeout_delay duration), clock = now\<rparr>"

text \<open>
  What can happen to the request afterwards: time passes, the downstream handler sends
  a response through \<open>res.json\<close>, \<open>res.send\<close> or \<open>res.end\<close>, or the response emits
  \<open>close\<close> or \<open>finish\<close>. A pending timer fires when its deadline is reached, once; a
  cleared timer never fires.
\<close>

datatype event = Elapse nat | Respond response | Close

fun timeout_step :: "(nat \<Rightarrow> string) \<Rightarrow> request \<Rightarrow> nat \<Rightarrow> event \<Rightarrow> res \<Rightarrow> res" where
  "timeout_step toISOString req duration (Elapse ms) s =
     (let s1 = s\<lparr>clock := clock s + ms\<rparr>
      in case timer s1 of
           None \<Rightarrow> s1
         | Some deadline \<Rightarrow>
             if deadline \<le> clock s1 then on_timeout toISOString req duration (s1\<lparr>timer := None\<rparr>)
             else s1)"
| "timeout_step toISOString req duration (Respond r) s = wrapped_send r s"
| "timeout_step toISOString req duration Close s = s\<lparr>timer := None\<rparr>"

fun timeout_run :: "(nat \<Rightarrow> string) \<Rightarrow> request \<Rightarrow> nat \<Rightarrow> event list \<Rightarrow> res \<Rightarrow> res" where
  "timeout_run toISOString req duration [] s = s"
| "timeout_run toISOString req duration (e # es) s =
     timeout_run toISOString req duration es (timeout_step toISOString req duration e s)"

text \<open>A stretch in which nothing happens but the passing of time, and its length.\<close>

fun silent :: "event list \<Rightarrow> bool" where
  "silent [] = True"
| "silent (Elapse ms # es) = silent es"
| "silent (e # es) = False"

fun elapsed :: "event list \<Rightarrow> nat" where
  "elapsed [] = 0"
| "elapsed (Elapse ms # es) = ms + elapsed es"
| "elapsed (e # es) = elapsed es"

text \<open>The state of a response after at most one send.\<close>

definition at_most_one :: "res \<Rightarrow> bool" where
  "at_most_one s = ((headersSent s \<or> sent s = []) \<and> length (sent s) \<le> 1)"

section \<open>The error translator (middleware/errorHandler.js) and the fallback 404\<close>

text \<open>
  The properties of the error object that the translator reads. An absent property is
  \<open>None\<close>. \<open>e_value\<close> is the text \<open>err.value\<close> has inside a template string,
  \<open>e_keyValue\<close> the entries of \<open>err.keyValue\<close> with their values as text,
  \<open>e_errors\<close> the messages of the values of \<open>err.errors\<close>, \<open>e_isSyntaxError\<close> the
  test \<open>err instanceof SyntaxError\<close>, \<open>e_hasBody\<close> the test \<open>"body" in err\<close>, and
  \<open>e_details\<close> the error as \<open>res.json\<close> serialises it.
\<close>

record js_error =
  e_name :: "string option"
  e_message :: "string option"
  e_code :: "json option"
  e_value :: string
  e_keyValue :: "(string \<times> string) list option"
  e_errors :: "string list option"
  e_status :: "nat option"
  e_statusCode :: "nat option"
  e_type :: "string option"
  e_isSyntaxError :: bool
  e_hasBody :: bool
  e_stack :: "string option"
  e_details :: json

text \<open>The local variable \<open>error\<close>: the two properties read at the end.\<close>

record translated =
  message :: "string option"
  statusCode :: "nat option"

datatype thrown = TypeError

text \<open>\<open>a || b\<close> for a text that may be absent or empty, and for a number.\<close>

definition or_text :: "string option \<Rightarrow> string \<Rightarrow> string" where
  "or_text a b = (case a of None \<Rightarrow> b | Some t \<Rightarrow> if t = [] then b else t)"

definition or_number :: "nat option \<Rightarrow> nat option \<Rightarrow> nat option" where
  "or_number a b = (case a of None \<Rightarrow> b | Some n \<Rightarrow> if n = 0 then b else Some n)"

definition message_includes :: "js_error \<Rightarrow> string \<Rightarrow> bool" where
  "message_includes err t =
     (case e_message err of None \<Rightarrow> False | Some m \<Rightarrow> m \<noteq> [] \<and> js_includes m t)"

definition toUpperCase_char :: "char \<Rightarrow> char" where
  "toUpperCase_char c =
     (let n = (of_char c :: nat)
      in if 97 \<le> n \<and> n \<le> 122 then char_of (n - 32) else c)"

fun join :: "string \<Rightarrow> string list \<Rightarrow> string" where
  "join sep [] = []"
| "join sep [x] = x"
| "join sep (x # y # ys) = x @ sep @ join sep (y # ys)"

text \<open>The duplicate-key branch; it throws when \<open>err.keyValue\<close> is absent or empty.\<close>

definition duplicate_key_message :: "js_error \<Rightarrow> thrown + string" where
  "duplicate_key_message err =
     (case e_keyValue err of
        None \<Rightarrow> Inl TypeError
      | Some [] \<Rightarrow> Inl TypeError
      | Some ((field, v) # rest) \<Rightarrow>
          Inr (map toUpperCase_char (take 1 field) @ drop 1 field @ '' '' @ [CHR 39] @ v
               @ [CHR 39] @ '' already exists''))"

definition multer_message :: "js_error \<Rightarrow> string" where
  "multer_message err =
     (if e_code err = Some (JStr ''LIMIT_FILE_SIZE'')
      then ''File size too large. Maximum allowed size is 10MB.''
      else if e_code err = Some (JStr ''LIMIT_FILE_COUNT'') then ''Too many files uploaded.''
      else if e_code err = Some (JStr ''LIMIT_UNEXPECTED_FILE'') then ''Unexpected file field.''
      else ''File upload error'')"

definition status_default_message :: "nat \<Rightarrow> string option" where
  "status_default_message code =
     (if code = 400 then Some ''Bad request. Please check your input.''
      else if code = 401 then Some ''Unauthorized. Please authenticate.''
      else if code = 403
        then Some ''Forbidden. You don't have permission to access this resource.''
      else if code = 404 then Some ''Resource not found.''
      else if code = 409 then Some ''Conflict. Resource already exists.''
      else if code = 422 then Some ''Unprocessable entity. Please check your input.''
      else if code = 500 then Some ''Internal server error. Please try again later.''
      else if code = 502 then Some ''Bad gateway. Please try again later.''
      else if code = 503
        then Some ''Service temporarily unavailable. Please try again later.''
      else if code = 504 then Some ''Gateway timeout. Please try again later.''
      else None)"

text \<open>
  The chain of tests that replace \<open>error\<close>, in the order of the source; a later test
  that holds overrides an earlier one.
\<close>

definition classify :: "js_error \<Rightarrow> thrown + translated" where
  "classify err =
     (let error0 = \<lparr>message = e_message err, statusCode = e_statusCode err\<rparr>;
          error1 = (if e_name err = Some ''CastError''
                    then \<lparr>message = Some (''Resource not found with id: '' @ e_value err),
                          statusCode = Some 404\<rparr>
                    else error0)
      in case (if e_code err = Some (JNum 11000)
               then map_sum id (\<lambda>m. \<lparr>message = Some m, statusCode = Some 400\<rparr>)
                      (duplicate_key_message err)
               else Inr error1) of
           Inl t \<Rightarrow> Inl t
         | Inr error2 \<Rightarrow>
           (case (if e_name err = Some ''ValidationError''
                  then (case e_errors err of
                          None \<Rightarrow> Inl TypeError
                        | Some ms \<Rightarrow>
                            Inr \<lparr>message = Some (join '', '' ms), statusCode = Some 400\<rparr>)
                  else Inr error2) of
              Inl t \<Rightarrow> Inl t
            | Inr error3 \<Rightarrow>
              (let error4 = (if e_name err = Some ''JsonWebTokenError''
                             then \<lparr>message =
                                     Some ''Invalid authentication token. Please log in again.'',
                                   statusCode = Some 401\<rparr>
                             else error3);
                   error5 = (if e_name err = Some ''TokenExpiredError''
                             then \<lparr>message =
                                     Some ''Authentication token has expired. Please log in again.'',
                                   statusCode = Some 401\<rparr>
                             else error4);
                   error6 = (if e_name err = Some ''MulterError''
                             then \<lparr>message = Some (multer_message err), statusCode = Some 400\<rparr>
                             else error5);
                   error7 = (if message_includes err ''Azure OpenAI''
                                \<or> message_includes err ''OpenAI''
                             then \<lparr>message =
                                     Some ''AI service is temporarily unavailable. Please try again later.'',
                                   statusCode = Some 503\<rparr>
                             else error6);
                   error8 = (if e_status err = Some 429 \<or> e_statusCode err = Some 429
                             then \<lparr>message =
                                     Some ''Too many requests. Please slow down and try again later.'',
                                   statusCode = Some 429\<rparr>
                             else error7);
                   error9 = (if e_name err = Some ''MongoError''
                                \<or> e_name err = Some ''MongooseError''
                             then \<lparr>message =
                                     Some ''Database connection error. Please try again later.'',
                                   statusCode = Some 503\<rparr>
                             else error8);
                   error10 = (if e_code err = Some (JStr ''ECONNRESET'')
                                 \<or> e_code err = Some (JStr ''ETIMEDOUT'')
                                 \<or> e_code err = Some (JStr ''ENOTFOUND'')
                              then \<lparr>message =
                                      Some ''Network connection error. Please check your internet connection and try again.'',
                                    statusCode = Some 503\<rparr>
                              else error9);
                   error11 = (if e_type err = Some ''entity.too.large''
                              then \<lparr>message =
                                      Some ''Request payload too large. Please reduce the size of your request.'',
                                    statusCode = Some 413\<rparr>
                              else error10);
                   error12 = (if e_isSyntaxError err \<and> e_status err = Some 400 \<and> e_hasBody err
                              then \<lparr>message = Some ''Invalid JSON format in request body.'',
                                    statusCode = Some 400\<rparr>
                              else error11);
                   error13 = (if message_includes err ''CORS''
                              then \<lparr>message =
                                      Some ''Cross-origin request blocked. Please check your request headers.'',
                                    statusCode = Some 403\<rparr>
                              else error12);
                   error14 = (case or_number (e_statusCode err) (e_status err) of
                                None \<Rightarrow> error13
                              | Some code \<Rightarrow>
                                  (case status_default_message code of
                                     None \<Rightarrow> error13
                                   | Some d \<Rightarrow>
                                       error13\<lparr>message := Some (or_text (message error13) d)\<rparr>))
               in Inr error14)))"

text \<open>
  \<open>errorHandler\<close>: classify, build the response and send it. \<open>nodeEnv\<close> is
  \<open>config.nodeEnv\<close> and \<open>timestamp\<close> the text of the current time.
\<close>

definition errorHandler :: "string \<Rightarrow> string \<Rightarrow> js_error \<Rightarrow> request \<Rightarrow> thrown + response" where
  "errorHandler nodeEnv timestamp err req =
     (case classify err of
        Inl t \<Rightarrow> Inl t
      | Inr error \<Rightarrow>
          let code = (case or_number (statusCode error) (Some 500) of
                        Some c \<Rightarrow> c | None \<Rightarrow> 500);
              msg = or_text (message error)
                      ''An unexpected error occurred. Please try again later.'';
              base = [(''type'', JStr (or_text (e_name err) ''UnknownError'')),
                      (''timestamp'', JStr timestamp),
                      (''path'', JStr (originalUrl req)),
                      (''method'', JStr (http_method req))];
              dev = (if nodeEnv = ''development''
                     then (case e_stack err of None \<Rightarrow> [] | Some st \<Rightarrow> [(''stack'', JStr st)])
                          @ [(''details'', e_details err)]
                     else []);
              ident = (case req_id req of
                         None \<Rightarrow> []
                       | Some i \<Rightarrow> if i = [] then [] else [(''requestId'', JStr i)])
          in Inr \<lparr>status = code,
                  body = JObj [(''success'', JBool False), (''message'', JStr msg),
                               (''error'', JObj (base @ dev @ ident))]\<rparr>)"

text \<open>\<open>app.use("*", ...)\<close> of server.js: the answer when no route matches.\<close>

definition notFound :: response where
  "notFound = \<lparr>status = 404, body = message_body False ''API endpoint not found''\<rparr>"

text \<open>
  The shape the error documentation gives for every error response: \<open>success\<close> is
  false, \<open>message\<close> is a text, and \<open>error\<close> is an object with a \<open>type\<close>.
\<close>

fun is_text :: "json option \<Rightarrow> bool" where
  "is_text (Some (JStr t)) = True"
| "is_text _ = False"

fun has_type :: "json option \<Rightarrow> bool" where
  "has_type (Some (JObj kvs)) = (map_of kvs ''type'' \<noteq> None)"
| "has_type _ = False"

definition error_envelope :: "json \<Rightarrow> bool" where
  "error_envelope b =
     (get_field b ''success'' = Some (JBool False) \<and> is_text (get_field b ''message'')
      \<and> has_type (get_field b ''error''))"

section \<open>Parsing the reply of the model (azureOpenAIService.parseRecipeResponse)\<close>

text \<open>
  White space as \<open>trim\<close> and \<open>\s\<close> see it, among the characters of one byte: space,
  tab, line feed, vertical tab, form feed, carriage return.
\<close>

definition is_space :: "char \<Rightarrow> bool" where
  "is_space c = ((of_char c :: nat) \<in> {32, 9, 10, 11, 12, 13})"

definition trim :: "string \<Rightarrow> string" where
  "trim t = rev (dropWhile is_space (rev (dropWhile is_space t)))"

text \<open>
  \<open>text.replace(/fence\s*/g, "")\<close> for a literal, non-empty \<open>fence\<close>: every
  occurrence of the fence, with the white space after it, is taken out, left to right.
\<close>

function remove_fence :: "string \<Rightarrow> string \<Rightarrow> string" where
  "remove_fence fence [] = []"
| "remove_fence fence (c # cs) =
     (if fence \<noteq> [] \<and> startsWith (c # cs) fence
      then remove_fence fence (dropWhile is_space (drop (length fence) (c # cs)))
      else c # remove_fence fence cs)"
  by pat_completeness auto
termination
proof (relation "measure (\<lambda>(fence, t). length t)")
  show "wf (measure (\<lambda>(fence, t). length t))" by simp
next
  fix fence :: string and c :: char and cs :: string
  assume "fence \<noteq> [] \<and> startsWith (c # cs) fence"
  then have "0 < length fence" by simp
  moreover have "length (dropWhile is_space (drop (length fence) (c # cs)))
                   \<le> length (drop (length fence) (c # cs))"
    by (rule length_dropWhile_le)
  ultimately show "((fence, dropWhile is_space (drop (length fence) (c # cs))), (fence, c # cs))
                     \<in> measure (\<lambda>(fence, t). length t)"
    by (cases fence) auto
next
  fix fence :: string and c :: char and cs :: string
  show "((fence, cs), (fence, c # cs)) \<in> measure (\<lambda>(fence, t). length t)" by simp
qed

definition clean_response :: "string \<Rightarrow> string" where
  "clean_response responseText =
     remove_fence ''```'' (remove_fence ''```json'' (trim responseText))"

text \<open>Truthiness of a property value; an absent property is \<open>undefined\<close>.\<close>

fun truthy :: "json option \<Rightarrow> bool" where
  "truthy None = False"
| "truthy (Some JNull) = False"
| "truthy (Some (JBool b)) = b"
| "truthy (Some (JNum n)) = (n \<noteq> 0)"
| "truthy (Some (JStr t)) = (t \<noteq> [])"
| "truthy (Some (JArr xs)) = True"
| "truthy (Some (JObj kvs)) = True"

fun isArray :: "json option \<Rightarrow> bool" where
  "isArray (Some (JArr xs)) = True"
| "isArray _ = False"

text \<open>\<open>recipe.key = recipe.key || fallback\<close> on the parsed object.\<close>

definition or_value :: "json option \<Rightarrow> json \<Rightarrow> json" where
  "or_value v fallback = (case v of None \<Rightarrow> fallback | Some w \<Rightarrow> if truthy v then w else fallback)"

definition default_field :: "string \<Rightarrow> json \<Rightarrow> (string \<times> json) list \<Rightarrow> (string \<times> json) list" where
  "default_field k fallback kvs = AList.update k (or_value (map_of kvs k) fallback) kvs"

definition getFallbackRecipe :: "string \<Rightarrow> json" where
  "getFallbackRecipe responseText =
     JObj [(''title'', JStr ''Generated Recipe''),
           (''description'', JStr ''A delicious recipe generated from your ingredients.''),
           (''ingredients'',
            JArr [JObj [(''name'', JStr ''Main ingredients''), (''amount'', JStr ''As needed''),
                        (''unit'', JStr [])]]),
           (''instructions'',
            JArr [JObj [(''stepNumber'', JNum 1),
                        (''description'',
                         JStr (if responseText = []
                               then ''Combine ingredients and cook as desired.''
                               else responseText)),
                        (''duration'', JStr ''As needed'')]]),
           (''cookingTime'', JObj [(''prep'', JNum 15), (''cook'', JNum 30), (''total'', JNum 45)]),
           (''difficulty'', JStr ''medium''),
           (''cuisine'', JStr []),
           (''mealType'', JArr [JStr ''dinner'']),
           (''dietaryInfo'',
            JObj [(''isVegetarian'', JBool False), (''isVegan'', JBool False),
                  (''isGlutenFree'', JBool False), (''isDairyFree'', JBool False),
                  (''isNutFree'', JBool False), (''isLowCarb'', JBool False)]),
           (''nutritionalInfo'', JObj []),
           (''tags'', JArr [JStr ''generated''])]"

text \<open>
  \<open>parseRecipeResponse\<close>. \<open>JSON_parse\<close> is the built-in \<open>JSON.parse\<close>, \<open>None\<close> where
  it throws. Every error raised inside the \<open>try\<close> (the syntax error, the property read
  on \<open>null\<close>, the three errors thrown by the checks) ends in the fallback recipe.
\<close>

definition parseRecipeResponse :: "(string \<Rightarrow> json option) \<Rightarrow> string \<Rightarrow> json" where
  "parseRecipeResponse JSON_parse responseText =
     (case JSON_parse (clean_response responseText) of
        None \<Rightarrow> getFallbackRecipe responseText
      | Some JNull \<Rightarrow> getFallbackRecipe responseText
      | Some recipe \<Rightarrow>
          if \<not> truthy (get_field recipe ''title'') \<or> \<not> truthy (get_field recipe ''ingredients'')
             \<or> \<not> truthy (get_field recipe ''instructions'')
          then getFallbackRecipe responseText
          else if \<not> isArray (get_field recipe ''ingredients'')
          then getFallbackRecipe responseText
          else if \<not> isArray (get_field recipe ''instructions'')
          then getFallbackRecipe responseText
          else
            (case recipe of
               JObj kvs \<Rightarrow>
                 JObj (default_field ''nutritionalInfo'' (JObj [])
                      (default_field ''dietaryInfo'' (JObj [])
                      (default_field ''cookingTime''
                         (JObj [(''prep'', JNum 0), (''cook'', JNum 0), (''total'', JNum 0)])
                      (default_field ''tags'' (JArr [])
                      (AList.update ''mealType''
                         (case map_of kvs ''mealType'' of
                            Some (JArr ms) \<Rightarrow> JArr ms
                          | m \<Rightarrow> JArr [or_value m (JStr ''dinner'')])
                      (default_field ''cuisine'' (JStr [])
                      (default_field ''difficulty'' (JStr ''medium'')
                      (default_field ''description'' (JStr []) kvs))))))))
             | other \<Rightarrow> other))"

text \<open>The descriptions of the instruction steps of a recipe.\<close>

definition step_descriptions :: "json \<Rightarrow> json option list" where
  "step_descriptions recipe =
     (case get_field recipe ''instructions'' of
        Some (JArr steps) \<Rightarrow> map (\<lambda>st. get_field st ''description'') steps
      | _ \<Rightarrow> [])"

section \<open>Rate limiting (middleware/validation.js, the routers, server.js)\<close>

text \<open>
  The options \<open>createRateLimit\<close> passes to the rate-limiting library, and the response
  of its \<open>handler\<close>. \<open>Math.ceil(windowMs / 1000)\<close> is the window in whole seconds.
\<close>

record policy =
  windowMs :: nat
  max_hits :: nat
  policy_message :: string

definition createRateLimit :: "nat \<Rightarrow> nat \<Rightarrow> string \<Rightarrow> policy" where
  "createRateLimit window m msg =
     \<lparr>windowMs = window, max_hits = m,
      policy_message =
        (if msg = [] then ''Too many requests from this IP, please try again later.'' else msg)\<rparr>"

definition rate_limit_response :: "policy \<Rightarrow> string \<Rightarrow> response" where
  "rate_limit_response p timestamp =
     \<lparr>status = 429,
      body = JObj [(''success'', JBool False), (''message'', JStr (policy_message p)),
                   (''error'',
                    JObj [(''type'', JStr ''RateLimitError''), (''timestamp'', JStr timestamp),
                          (''retryAfter'', JNum (of_nat ((windowMs p + 999) div 1000)))])]\<rparr>"

definition authRateLimit :: policy where
  "authRateLimit =
     createRateLimit (15 * 60 * 1000) 5
       ''Too many authentication attempts. Please try again later.''"

definition apiRateLimit :: policy where
  "apiRateLimit = createRateLimit (15 * 60 * 1000) 100 ''Too many API requests. Please slow down.''"

definition aiRateLimit :: policy where
  "aiRateLimit =
     createRateLimit (60 * 1000) 10
       ''Too many AI generation requests. Please wait before generating more recipes.''"

text \<open>
  Modelled from the library's documentation: the counter of the rate-limiting library
  (its code is not part of the repository). Each limiter keeps, per client address, the
  number of hits in the current window and the time the window ends; a hit after the end
  starts a new window; a request whose hit count exceeds \<open>max\<close> goes to the handler
  instead of \<open>next()\<close>.
\<close>

type_synonym hits = "string \<rightharpoonup> nat \<times> nat"

definition increment :: "policy \<Rightarrow> nat \<Rightarrow> string \<Rightarrow> hits \<Rightarrow> (nat \<times> nat) \<times> hits" where
  "increment p now ip h =
     (let entry = (case h ip of
                     Some (n, resetTime) \<Rightarrow>
                       if now < resetTime then (n + 1, resetTime) else (1, now + windowMs p)
                   | None \<Rightarrow> (1, now + windowMs p))
      in (entry, h(ip \<mapsto> entry)))"

definition rate_limit :: "policy \<Rightarrow> string \<Rightarrow> nat \<Rightarrow> string \<Rightarrow> hits \<Rightarrow> response option \<times> hits" where
  "rate_limit p timestamp now ip h =
     (let (entry, h1) = increment p now ip h
      in (if max_hits p < fst entry then Some (rate_limit_response p timestamp) else None, h1))"

text \<open>
  The routes of the three routers and the limiters mounted in front of each:
  \<open>app.use("/api/", apiRateLimit)\<close> in server.js for all of them, \<open>authRateLimit\<close> on
  the register and login routes of routes/auth.js, none in routes/recipes.js or
  routes/users.js.
\<close>

datatype route =
    Register | Login | GetMe | UpdateProfile | ChangePassword
  | Generate | SearchByIngredients | GetSaved | ListRecipes | GetRecipe
  | SaveRecipe | UnsaveRecipe | RateRecipe
  | GetUserProfile

datatype limiter = ApiRateLimit | AuthRateLimit | AiRateLimit

fun limiter_policy :: "limiter \<Rightarrow> policy" where
  "limiter_policy ApiRateLimit = apiRateLimit"
| "limiter_policy AuthRateLimit = authRateLimit"
| "limiter_policy AiRateLimit = aiRateLimit"

fun route_limiters :: "route \<Rightarrow> limiter list" where
  "route_limiters Register = [ApiRateLimit, AuthRateLimit]"
| "route_limiters Login = [ApiRateLimit, AuthRateLimit]"
| "route_limiters r = [ApiRateLimit]"

text \<open>
  One request through the limiters of its route, in order; the first limiter that
  refuses answers, and the ones behind it do not see the request. \<open>None\<close> means the
  request reaches the rest of the chain.
\<close>

fun through_limiters ::
  "limiter list \<Rightarrow> string \<Rightarrow> nat \<Rightarrow> string \<Rightarrow> (limiter \<Rightarrow> hits) \<Rightarrow> response option \<times> (limiter \<Rightarrow> hits)" where
  "through_limiters [] timestamp now ip st = (None, st)"
| "through_limiters (l # ls) timestamp now ip st =
     (case rate_limit (limiter_policy l) timestamp now ip (st l) of
        (Some r, h) \<Rightarrow> (Some r, st(l := h))
      | (None, h) \<Rightarrow> through_limiters ls timestamp now ip (st(l := h)))"

text \<open>
  A sequence of requests \<open>(route, address, time)\<close>: the answer to each, and the state
  of the limiters at the end.
\<close>

fun serve ::
  "(nat \<Rightarrow> string) \<Rightarrow> (route \<times> string \<times> nat) list \<Rightarrow> (limiter \<Rightarrow> hits)
     \<Rightarrow> response option list \<times> (limiter \<Rightarrow> hits)" where
  "serve toISOString [] st = ([], st)"
| "serve toISOString ((r, ip, now) # rest) st =
     (case through_limiters (route_limiters r) (toISOString now) now ip st of
        (answer, st1) \<Rightarrow>
          (case serve toISOString rest st1 of (answers, st2) \<Rightarrow> (answer # answers, st2)))"

text \<open>The \<open>retryAfter\<close> of an error body, and the seconds left in a client's window.\<close>

definition retryAfter :: "response \<Rightarrow> json option" where
  "retryAfter r =
     (case get_field (body r) ''error'' of None \<Rightarrow> None | Some e \<Rightarrow> get_field e ''retryAfter'')"

definition seconds_until_reset :: "hits \<Rightarrow> string \<Rightarrow> nat \<Rightarrow> nat option" where
  "seconds_until_reset h ip now =
     (case h ip of None \<Rightarrow> None | Some (n, resetTime) \<Rightarrow> Some ((resetTime - now + 999) div 1000))"

text \<open>
  The window of a policy in whole seconds, the hit count a request reaches at a limiter,
  and the condition that no window recorded in the limiters ends later than one window
  after the given time (true of the empty state and kept by every request, time never
  running backwards).
\<close>

definition window_seconds :: "policy \<Rightarrow> nat" where
  "window_seconds p = (windowMs p + 999) div 1000"

definition hit_count :: "limiter \<Rightarrow> nat \<Rightarrow> string \<Rightarrow> (limiter \<Rightarrow> hits) \<Rightarrow> nat" where
  "hit_count l now ip st = fst (fst (increment (limiter_policy l) now ip (st l)))"

definition within_window :: "(limiter \<Rightarrow> hits) \<Rightarrow> nat \<Rightarrow> bool" where
  "within_window st now =
     (\<forall>l ip n resetTime. st l ip = Some (n, resetTime) \<longrightarrow>
        resetTime \<le> now + windowMs (limiter_policy l))"

section \<open>Updating the profile (authController.updateProfile)\<close>

text \<open>
  The store casts and validates each value of an update against the schema
  (\<open>runValidators\<close>); the functions are that step for the paths of the user schema,
  \<open>None\<close> where it rejects the value. \<open>cast_date\<close> serves the three dates.
\<close>

record casts =
  cast_id :: "json \<Rightarrow> oid option"
  cast_name :: "json \<Rightarrow> string option"
  cast_email :: "json \<Rightarrow> string option"
  cast_password :: "json \<Rightarrow> string option"
  cast_avatar :: "json \<Rightarrow> string option option"
  cast_preferences :: "json \<Rightarrow> json option"
  cast_savedRecipes :: "json \<Rightarrow> oid list option"
  cast_date :: "json \<Rightarrow> nat option"
  cast_isActive :: "json \<Rightarrow> bool option"

datatype failure = ValidationError | ImmutableField | NullUser

text \<open>
  One key of an update object as the assignment the store makes for it. Every path of
  the schema can be assigned; a key that is no path of the schema is dropped (the
  schema is strict). Update operators and dotted keys are outside the model.
\<close>

datatype assignment =
    SetId oid
  | SetName string
  | SetEmail string
  | SetPassword string
  | SetAvatar "string option"
  | SetPreferences json
  | SetSavedRecipes "oid list"
  | SetCreatedAt nat
  | SetLastLoginAt nat
  | SetIsActive bool
  | SetUpdatedAt nat
  | NoPath

definition cast_update :: "casts \<Rightarrow> string \<times> json \<Rightarrow> assignment option" where
  "cast_update cs kv =
     (if fst kv = ''_id'' then map_option SetId (cast_id cs (snd kv))
      else if fst kv = ''name'' then map_option SetName (cast_name cs (snd kv))
      else if fst kv = ''email'' then map_option SetEmail (cast_email cs (snd kv))
      else if fst kv = ''password'' then map_option SetPassword (cast_password cs (snd kv))
      else if fst kv = ''avatar'' then map_option SetAvatar (cast_avatar cs (snd kv))
      else if fst kv = ''preferences''
        then map_option SetPreferences (cast_preferences cs (snd kv))
      else if fst kv = ''savedRecipes''
        then map_option SetSavedRecipes (cast_savedRecipes cs (snd kv))
      else if fst kv = ''createdAt'' then map_option SetCreatedAt (cast_date cs (snd kv))
      else if fst kv = ''lastLoginAt'' then map_option SetLastLoginAt (cast_date cs (snd kv))
      else if fst kv = ''isActive'' then map_option SetIsActive (cast_isActive cs (snd kv))
      else if fst kv = ''updatedAt'' then map_option SetUpdatedAt (cast_date cs (snd kv))
      else Some NoPath)"

fun cast_updates :: "casts \<Rightarrow> (string \<times> json) list \<Rightarrow> assignment list option" where
  "cast_updates cs [] = Some []"
| "cast_updates cs (kv # kvs) =
     (case cast_update cs kv of
        None \<Rightarrow> None
      | Some a \<Rightarrow> map_option (\<lambda>as. a # as) (cast_updates cs kvs))"

text \<open>
  The assignment on a document. The store refuses to give a document another \<open>_id\<close>.
\<close>

fun assign :: "assignment \<Rightarrow> user \<Rightarrow> failure + user" where
  "assign (SetId i) u = (if i = usr_id u then Inr u else Inl ImmutableField)"
| "assign (SetName v) u = Inr (u\<lparr>name := v\<rparr>)"
| "assign (SetEmail v) u = Inr (u\<lparr>email := v\<rparr>)"
| "assign (SetPassword v) u = Inr (u\<lparr>password := v\<rparr>)"
| "assign (SetAvatar v) u = Inr (u\<lparr>avatar := v\<rparr>)"
| "assign (SetPreferences v) u = Inr (u\<lparr>preferences := v\<rparr>)"
| "assign (SetSavedRecipes v) u = Inr (u\<lparr>savedRecipes := v\<rparr>)"
| "assign (SetCreatedAt v) u = Inr (u\<lparr>u_createdAt := v\<rparr>)"
| "assign (SetLastLoginAt v) u = Inr (u\<lparr>lastLoginAt := v\<rparr>)"
| "assign (SetIsActive v) u = Inr (u\<lparr>isActive := v\<rparr>)"
| "assign (SetUpdatedAt v) u = Inr (u\<lparr>updatedAt := v\<rparr>)"
| "assign NoPath u = Inr u"

fun assign_all :: "assignment list \<Rightarrow> user \<Rightarrow> failure + user" where
  "assign_all [] u = Inr u"
| "assign_all (a # as) u =
     (case assign a u of Inl e \<Rightarrow> Inl e | Inr u1 \<Rightarrow> assign_all as u1)"

text \<open>
  \<open>User.findByIdAndUpdate(id, updates, {new: true, runValidators: true})\<close>: a rejected
  value fails the call and writes nothing; otherwise the document, if there is one, is
  written with the new values and, the schema having timestamps, with \<open>updatedAt\<close> set
  to the time of the call (over any value the update gave it). The result is the new
  document, or \<open>null\<close>.
\<close>

definition findByIdAndUpdate ::
  "db \<Rightarrow> nat \<Rightarrow> casts \<Rightarrow> oid \<Rightarrow> (string \<times> json) list \<Rightarrow> failure + (user option \<times> db)" where
  "findByIdAndUpdate d now cs uid updates =
     (case cast_updates cs updates of
        None \<Rightarrow> Inl ValidationError
      | Some as \<Rightarrow>
          (case users d uid of
             None \<Rightarrow> Inr (None, d)
           | Some u \<Rightarrow>
               (case assign_all as u of
                  Inl e \<Rightarrow> Inl e
                | Inr u1 \<Rightarrow>
                    let u2 = u1\<lparr>updatedAt := now\<rparr>
                    in Inr (Some u2, d\<lparr>users := (users d)(uid \<mapsto> u2)\<rparr>))))"

text \<open>\<open>user.getPublicProfile()\<close>: the document as an object, without the password.\<close>

definition getPublicProfile :: "(nat \<Rightarrow> string) \<Rightarrow> user \<Rightarrow> json" where
  "getPublicProfile toISOString u =
     JObj [(''_id'', JStr (usr_id u)), (''name'', JStr (name u)), (''email'', JStr (email u)),
           (''avatar'', (case avatar u of None \<Rightarrow> JNull | Some a \<Rightarrow> JStr a)),
           (''preferences'', preferences u),
           (''savedRecipes'', JArr (map JStr (savedRecipes u))),
           (''createdAt'', JStr (toISOString (u_createdAt u))),
           (''lastLoginAt'', JStr (toISOString (lastLoginAt u))),
           (''isActive'', JBool (isActive u)),
           (''updatedAt'', JStr (toISOString (updatedAt u)))]"

text \<open>
  \<open>updateProfile\<close>, for the authenticated user \<open>uid\<close>. \<open>errors\<close> are the findings of the
  route's validation chain and \<open>req_body\<close> the properties of the request body in order.
  The result is the response, or the error that \<open>asyncHandler\<close> passes to \<open>next\<close>,
  with the store left behind.
\<close>

definition allowedUpdates :: "string list" where
  "allowedUpdates = [''name'', ''preferences'', ''avatar'']"

definition updateProfile ::
  "(nat \<Rightarrow> string) \<Rightarrow> casts \<Rightarrow> db \<Rightarrow> nat \<Rightarrow> oid \<Rightarrow> json list \<Rightarrow> (string \<times> json) list
     \<Rightarrow> (failure + response) \<times> db" where
  "updateProfile toISOString cs d now uid errors req_body =
     (if errors \<noteq> []
      then (Inr \<lparr>status = 400,
                 body = JObj [(''success'', JBool False), (''message'', JStr ''Validation failed''),
                              (''errors'', JArr errors)]\<rparr>, d)
      else
        let updates = filter (\<lambda>(key, v). key \<in> set allowedUpdates) req_body
        in case findByIdAndUpdate d now cs uid updates of
             Inl e \<Rightarrow> (Inl e, d)
           | Inr (None, d1) \<Rightarrow> (Inl NullUser, d1)
           | Inr (Some u, d1) \<Rightarrow>
               (Inr \<lparr>status = 200,
                     body = JObj [(''success'', JBool True),
                                  (''message'', JStr ''Profile updated successfully''),
                                  (''data'', JObj [(''user'', getPublicProfile toISOString u)])]\<rparr>,
                d1))"

text \<open>
  A cast that stores texts, truth values and whole numbers as they are (and \<open>null\<close>
  as no avatar), keeps an object of preferences and a list of ids, and rejects
  everything else.
\<close>

fun plain_text :: "json \<Rightarrow> string option" where
  "plain_text (JStr t) = Some t"
| "plain_text _ = None"

fun plain_avatar :: "json \<Rightarrow> string option option" where
  "plain_avatar (JStr t) = Some (Some t)"
| "plain_avatar JNull = Some None"
| "plain_avatar _ = None"

fun plain_object :: "json \<Rightarrow> json option" where
  "plain_object (JObj kvs) = Some (JObj kvs)"
| "plain_object _ = None"

fun plain_ids :: "json \<Rightarrow> oid list option" where
  "plain_ids (JArr xs) = those (map plain_text xs)"
| "plain_ids _ = None"

fun plain_date :: "json \<Rightarrow> nat option" where
  "plain_date (JNum n) = (if 0 \<le> n \<and> of_int \<lfloor>n\<rfloor> = n then Some (nat \<lfloor>n\<rfloor>) else None)"
| "plain_date _ = None"

fun plain_bool :: "json \<Rightarrow> bool option" where
  "plain_bool (JBool b) = Some b"
| "plain_bool _ = None"

definition plain_casts :: casts where
  "plain_casts =
     \<lparr>cast_id = plain_text, cast_name = plain_text, cast_email = plain_text,
      cast_password = plain_text, cast_avatar = plain_avatar, cast_preferences = plain_object,
      cast_savedRecipes = plain_ids, cast_date = plain_date, cast_isActive = plain_bool\<rparr>"

text \<open>The assignments that the three allowed keys can make.\<close>

fun allowed_assignment :: "assignment \<Rightarrow> bool" where
  "allowed_assignment (SetName v) = True"
| "allowed_assignment (SetAvatar v) = True"
| "allowed_assignment (SetPreferences v) = True"
| "allowed_assignment a = False"

text \<open>
  What the profile update leaves alone in a user document: every field but \<open>name\<close>,
  \<open>preferences\<close>, \<open>avatar\<close> and \<open>updatedAt\<close>.
\<close>

definition frame :: "user \<Rightarrow> user \<Rightarrow> bool" where
  "frame u u' =
     (usr_id u' = usr_id u \<and> email u' = email u \<and> password u' = password u
      \<and> savedRecipes u' = savedRecipes u \<and> u_createdAt u' = u_createdAt u
      \<and> lastLoginAt u' = lastLoginAt u \<and> isActive u' = isActive u)"

section \<open>Sample documents\<close>

definition alice :: user where
  "alice =
     \<lparr>usr_id = ''u1'', name = ''Alice'', email = ''alice@cookly.io'', password = ''$2a$12$hash'',
      avatar = None, preferences = JObj [], savedRecipes = [], u_createdAt = 1,
      lastLoginAt = 2, isActive = True, updatedAt = 3\<rparr>"

text \<open>
  A store in which the relation is one-sided: the recipe lists the user among
  \<open>savedByUsers\<close>, the user does not list the recipe. A save or unsave whose second
  write failed leaves the store so.
\<close>

definition one_sided :: db where
  "one_sided =
     \<lparr>recipes = [''r1'' \<mapsto> chicken_broccoli\<lparr>savedByUsers := [''u1'']\<rparr>],
      users = [''u1'' \<mapsto> alice]\<rparr>"

definition both_sided :: db where
  "both_sided =
     \<lparr>recipes = [''r1'' \<mapsto> chicken_broccoli\<lparr>savedByUsers := [''u1'']\<rparr>],
      users = [''u1'' \<mapsto> alice\<lparr>savedRecipes := [''r1'']\<rparr>]\<rparr>"

definition unsaved :: db where
  "unsaved = \<lparr>recipes = [''r1'' \<mapsto> chicken_broccoli], users = [''u1'' \<mapsto> alice]\<rparr>"


definition rated_recipe :: recipe where
  "rated_recipe =
     chicken_broccoli\<lparr>ratings := [rated ''u2'' 5 4 None, rated ''u1'' 6 2 (Some ''bland'')],
                      averageRating := 3, totalRatings := 2\<rparr>"

definition stamp :: "nat \<Rightarrow> string" where
  "stamp t = ''2024-01-01T00:00:00.000Z''"

definition slow_request :: request where
  "slow_request = \<lparr>originalUrl = ''/api/recipes/generate'', http_method = ''POST'', req_id = Some ''9f3c''\<rparr>"

definition ok_response :: response where
  "ok_response = \<lparr>status = 200, body = message_body True ''Recipe saved successfully''\<rparr>"

definition answered :: res where
  "answered =
     \<lparr>headersSent = True, sent = [ok_response], refused = 0, timer = Some 30000, clock = 30000\<rparr>"

text \<open>A reply in a code fence whose JSON is the empty object, and a parser that knows it.\<close>

definition fenced_reply :: string where
  "fenced_reply = ''```json'' @ [CHR 0x0A] @ ''{}'' @ [CHR 0x0A] @ ''```''"

definition sample_parse :: "string \<Rightarrow> json option" where
  "sample_parse t = (if trim t = ''{}'' then Some (JObj []) else None)"

text \<open>Eleven generation requests in ten seconds, and six logins in ten minutes.\<close>

definition generate_burst :: "(route \<times> string \<times> nat) list" where
  "generate_burst =
     [(Generate, ''203.0.113.7'', 0), (Generate, ''203.0.113.7'', 1000),
      (Generate, ''203.0.113.7'', 2000), (Generate, ''203.0.113.7'', 3000),
      (Generate, ''203.0.113.7'', 4000), (Generate, ''203.0.113.7'', 5000),
      (Generate, ''203.0.113.7'', 6000), (Generate, ''203.0.113.7'', 7000),
      (Generate, ''203.0.113.7'', 8000), (Generate, ''203.0.113.7'', 9000),
      (Generate, ''203.0.113.7'', 10000)]"

definition login_burst :: "(route \<times> string \<times> nat) list" where
  "login_burst =
     [(Login, ''203.0.113.7'', 0), (Login, ''203.0.113.7'', 120000),
      (Login, ''203.0.113.7'', 240000), (Login, ''203.0.113.7'', 360000),
      (Login, ''203.0.113.7'', 480000), (Login, ''203.0.113.7'', 600000)]"

text \<open>The limiters after five logins of one client, the first at time 0.\<close>

definition five_logins :: "limiter \<Rightarrow> hits" where
  "five_logins l = (if l = AiRateLimit then Map.empty else [''203.0.113.7'' \<mapsto> (5, 900000)])"

text \<open>A profile update that also names fields it must not touch.\<close>

definition forged_body :: "(string \<times> json) list" where
  "forged_body =
     [(''name'', JStr ''Mallory''), (''email'', JStr ''mallory@cookly.io''),
      (''password'', JStr ''secret''), (''savedRecipes'', JArr [JStr ''r9'']),
      (''isActive'', JBool False)]"

section \<open>Lemmas\<close>

lemma round_half_even_int: "round_half_even (of_int z) = z"
  by (simp add: round_half_even_def)

lemma pow2_neg: "pow2 (- int n) = 1 / 2 ^ n"
  by (auto simp: pow2_def)

lemma bitlen_small:
  assumes "1 \<le> k" "k < 2 ^ 53"
  shows "1 \<le> bitlen k \<and> bitlen k \<le> 53"
proof -
  have "bitlen k \<noteq> 0" using assms(1) by (simp add: bitlen_eq_zero_iff)
  with bitlen_nonneg [of k] have "1 \<le> bitlen k" by simp
  moreover have "bitlen k \<le> 53"
    using assms(2) bitlen_le_iff_power [of k 53] by simp
  ultimately show ?thesis by simp
qed

text \<open>
  \<open>exponent a\<close> is the binary exponent of a positive number: the power of two at or
  below it.
\<close>

lemma exponent_bounds:
  assumes "0 < a"
  shows "pow2 (exponent a) \<le> a \<and> a < 2 * pow2 (exponent a)"
proof (cases "1 \<le> a")
  case True
  let ?k = "\<lfloor>a\<rfloor>"
  have k: "0 < ?k" using True by simp
  from bitlen_bounds [OF k] have b: "2 ^ nat (bitlen ?k - 1) \<le> ?k" "?k < 2 ^ nat (bitlen ?k)"
    by simp_all
  have bl: "1 \<le> bitlen ?k" using k bitlen_eq_zero_iff [of ?k] bitlen_nonneg [of ?k] by linarith
  define n where "n = nat (bitlen ?k - 1)"
  have n: "bitlen ?k = int (Suc n)" using bl by (simp add: n_def)
  have b': "2 ^ n \<le> ?k" "?k < 2 ^ Suc n" using b bl by (simp_all add: n_def nat_diff_distrib)
  have e: "exponent a = int n" using True n by (simp add: exponent_def)
  have p: "pow2 (exponent a) = 2 ^ n" by (simp add: e pow2_def)
  from b'(1) have "(of_int (2 ^ n) :: rat) \<le> of_int ?k" by (simp only: of_int_le_iff)
  then have lo: "2 ^ n \<le> a" by (simp add: le_floor_iff)
  have "?k + 1 \<le> 2 ^ Suc n" using b'(2) by linarith
  then have "(of_int (?k + 1) :: rat) \<le> of_int (2 ^ Suc n)" by (simp only: of_int_le_iff)
  moreover have "a < of_int (?k + 1)" by linarith
  ultimately have hi: "a < 2 * 2 ^ n" by simp
  from lo hi p show ?thesis by simp
next
  case False
  let ?b = "1 / a"
  let ?m = "\<lceil>?b\<rceil> - 1"
  have b1: "1 < ?b" using False assms by simp
  then have m: "0 < ?m" by linarith
  have mb: "of_int ?m < ?b" "?b \<le> of_int ?m + 1" by linarith+
  from bitlen_bounds [OF m] have b: "2 ^ nat (bitlen ?m - 1) \<le> ?m" "?m < 2 ^ nat (bitlen ?m)"
    by simp_all
  have bl: "1 \<le> bitlen ?m" using m bitlen_eq_zero_iff [of ?m] bitlen_nonneg [of ?m] by linarith
  define n where "n = nat (bitlen ?m - 1)"
  have n: "bitlen ?m = int (Suc n)" using bl by (simp add: n_def)
  have b': "2 ^ n \<le> ?m" "?m < 2 ^ Suc n" using b bl by (simp_all add: n_def nat_diff_distrib)
  have e: "exponent a = - int (Suc n)" using False n by (simp add: exponent_def)
  have p: "pow2 (exponent a) = 1 / 2 ^ Suc n" unfolding e by (simp add: pow2_def nat_add_distrib)
  from b'(1) have "(of_int (2 ^ n) :: rat) \<le> of_int ?m" by (simp only: of_int_le_iff)
  then have "2 ^ n < ?b" using mb(1) by simp
  then have "2 ^ n * a < 1" using assms by (simp add: pos_less_divide_eq)
  then have hi: "a < 1 / 2 ^ n" using assms by (simp add: pos_less_divide_eq mult.commute)
  have "?m + 1 \<le> 2 ^ Suc n" using b'(2) by linarith
  then have "(of_int (?m + 1) :: rat) \<le> of_int (2 ^ Suc n)" by (simp only: of_int_le_iff)
  then have "(of_int \<lceil>?b\<rceil> :: rat) \<le> 2 ^ Suc n" by simp
  with le_of_int_ceiling [of ?b] have "?b \<le> 2 ^ Suc n" by (rule order_trans)
  then have "1 \<le> 2 ^ Suc n * a" using assms by (simp add: pos_divide_le_eq)
  then have lo: "1 / 2 ^ Suc n \<le> a" by (simp add: pos_divide_le_eq mult.commute)
  from lo hi p show ?thesis by simp
qed

text \<open>
  Known doubles: \<open>0.1\<close>, \<open>0.1 + 0.2 = 0.30000000000000004\<close>, and the two ties above
  \<open>2^53\<close>, which go to the even significand.
\<close>

lemma round_to_double_examples:
  "round_to_double (1 / 10) = 3602879701896397 / 36028797018963968
   \<and> round_to_double (round_to_double (1 / 10) + round_to_double (2 / 10))
       = 1351079888211149 / 4503599627370496
   \<and> round_to_double (9007199254740993) = 9007199254740992
   \<and> round_to_double (9007199254740995) = 9007199254740996"
  by code_simp

text \<open>An integer below \<open>2^53\<close> is a double: rounding leaves it as it is.\<close>

lemma round_to_double_int:
  assumes "1 \<le> k" "k < 2 ^ 53"
  shows "round_to_double (of_int k) = of_int k"
proof -
  define n where "n = nat (53 - bitlen k)"
  from bitlen_small [OF assms] have e: "bitlen k - 1 - 52 = - int n" "0 \<le> bitlen k - 1"
    by (simp_all add: n_def)
  have ex: "exponent (of_int k) = bitlen k - 1"
    using assms(1) by (simp add: exponent_def)
  have q: "pow2 (max (exponent (of_int k)) (- 1022) - 52) = 1 / 2 ^ n"
    using e by (simp add: ex pow2_neg max_def)
  have "(of_int k :: rat) / (1 / 2 ^ n) = of_int (k * 2 ^ n)" by simp
  then have r: "round_half_even ((of_int k :: rat) / (1 / 2 ^ n)) = k * 2 ^ n"
    by (simp only: round_half_even_int)
  have pos: "(of_int k :: rat) \<noteq> 0" "\<bar>of_int k :: rat\<bar> = of_int k"
    "sgn (of_int k :: rat) = 1"
    using assms(1) by simp_all
  show ?thesis
    unfolding round_to_double_def Let_def using pos q r by simp
qed

lemma valid_rating_int: "valid_rating v \<Longrightarrow> \<exists>i. v = of_int i \<and> 1 \<le> i \<and> i \<le> 5"
proof -
  assume "valid_rating v"
  then have "v = of_int 1 \<or> v = of_int 2 \<or> v = of_int 3 \<or> v = of_int 4 \<or> v = of_int 5"
    by (auto simp: valid_rating_def)
  then show ?thesis
    by (elim disjE) (rule exI [of _ 1], simp, rule exI [of _ 2], simp, rule exI [of _ 3], simp,
                     rule exI [of _ 4], simp, rule exI [of _ 5], simp)
qed

text \<open>Adding admitted ratings one by one stays exact while the sum is below \<open>2^53\<close>.\<close>

lemma double_sum_exact:
  "\<forall>v \<in> set vs. valid_rating v \<Longrightarrow> 0 \<le> m \<Longrightarrow> m + 5 * int (length vs) < 2 ^ 53 \<Longrightarrow>
   foldl double_add (of_int m) vs = of_int m + sum_list vs"
proof (induction vs arbitrary: m)
  case Nil
  then show ?case by simp
next
  case (Cons v vs)
  from Cons.prems(1) valid_rating_int [of v] obtain i where i: "v = of_int i" "1 \<le> i" "i \<le> 5"
    by auto
  have small: "1 \<le> m + i" "m + i < 2 ^ 53"
    using i Cons.prems(2,3) by simp_all
  have step: "double_add (of_int m) v = of_int (m + i)"
    unfolding double_add_def i(1) using round_to_double_int [OF small] by simp
  have "foldl double_add (of_int (m + i)) vs = of_int (m + i) + sum_list vs"
    using Cons.prems i by (intro Cons.IH) simp_all
  with step i(1) show ?case by simp
qed

lemma foldl_rating_sum:
  "foldl (\<lambda>acc x. double_add acc (rt_rating x)) a rs = foldl double_add a (map rt_rating rs)"
  by (induction rs arbitrary: a) simp_all

lemma findIndex_Some:
  "findIndex p xs = Some i \<Longrightarrow> i < length xs \<and> p (xs ! i) \<and> (\<forall>j<i. \<not> p (xs ! j))"
proof (induction xs arbitrary: i)
  case Nil
  then show ?case by simp
next
  case (Cons x xs)
  show ?case
  proof (cases "p x")
    case True
    with Cons.prems show ?thesis by simp
  next
    case False
    with Cons.prems obtain k where k: "findIndex p xs = Some k" "i = Suc k"
      by auto
    from Cons.IH [OF k(1)] False k(2) show ?thesis
      by (auto simp: less_Suc_eq_0_disj)
  qed
qed

lemma findIndex_None: "findIndex p xs = None \<Longrightarrow> \<forall>x\<in>set xs. \<not> p x"
  by (induction xs) (auto split: if_splits)

lemma ratings_updateAverageRating: "ratings (updateAverageRating r) = ratings r"
  by (simp add: updateAverageRating_def Let_def)

lemma updateAverageRating_mean:
  "ratings r \<noteq> [] \<Longrightarrow>
   averageRating (updateAverageRating r) =
     double_div (foldl double_add 0 (map rt_rating (ratings r))) (of_nat (length (ratings r)))
   \<and> totalRatings (updateAverageRating r) = length (ratings r)"
  by (simp add: updateAverageRating_def foldl_rating_sum Let_def)

lemma pre_save_keeps_ratings:
  "ratings (pre_save r) = ratings r \<and> averageRating (pre_save r) = averageRating r
   \<and> totalRatings (pre_save r) = totalRatings r"
  by (simp add: pre_save_def)

lemma ratings_rate_document:
  "ratings (rate_document uid now v c r) =
     (case findIndex (\<lambda>x. rt_user x = uid) (ratings r) of
        Some i \<Rightarrow> (ratings r)[i := (ratings r ! i)\<lparr>rt_rating := v, rt_comment := c, rt_createdAt := now\<rparr>]
      | None \<Rightarrow> ratings r @ [\<lparr>rt_user = uid, rt_rating = v, rt_comment = c, rt_createdAt = now\<rparr>])"
  by (simp add: rate_document_def Let_def ratings_updateAverageRating split: option.split)

lemma filter_findIndex_None: "findIndex p xs = None \<Longrightarrow> filter p xs = []"
  by (induction xs) (auto split: if_splits)

lemma update_found:
  "findIndex (\<lambda>x. rt_user x = uid) rs = Some i \<Longrightarrow> distinct (map rt_user rs) \<Longrightarrow>
   rt_user y = uid \<Longrightarrow>
     map rt_user (rs[i := y]) = map rt_user rs \<and>
     filter (\<lambda>x. rt_user x = uid) (rs[i := y]) = [y] \<and>
     filter (\<lambda>x. rt_user x \<noteq> uid) (rs[i := y]) = filter (\<lambda>x. rt_user x \<noteq> uid) rs"
proof (induction rs arbitrary: i)
  case Nil
  then show ?case by simp
next
  case (Cons a rs)
  show ?case
  proof (cases "rt_user a = uid")
    case True
    with Cons.prems have i: "i = 0" by simp
    from True Cons.prems(2) have "\<forall>x\<in>set rs. rt_user x \<noteq> uid"
      by (auto simp: image_iff)
    then have "filter (\<lambda>x. rt_user x = uid) rs = []"
      by (simp add: filter_empty_conv)
    with True i Cons.prems(3) show ?thesis by simp
  next
    case False
    with Cons.prems obtain k where k: "findIndex (\<lambda>x. rt_user x = uid) rs = Some k" "i = Suc k"
      by auto
    from Cons.prems(2) have "distinct (map rt_user rs)" by simp
    from Cons.IH [OF k(1) this Cons.prems(3)] False k(2) show ?thesis by simp
  qed
qed

lemma rate_list_props:
  fixes uid :: oid and v :: rat and c :: "string option" and now :: nat
  assumes d: "distinct (map rt_user rs)"
  defines "rs' \<equiv> (case findIndex (\<lambda>x. rt_user x = uid) rs of
        Some i \<Rightarrow> rs[i := (rs ! i)\<lparr>rt_rating := v, rt_comment := c, rt_createdAt := now\<rparr>]
      | None \<Rightarrow> rs @ [\<lparr>rt_user = uid, rt_rating = v, rt_comment = c, rt_createdAt = now\<rparr>])"
  shows "distinct (map rt_user rs')"
    and "filter (\<lambda>x. rt_user x = uid) rs' = [rated uid now v c]"
    and "filter (\<lambda>x. rt_user x \<noteq> uid) rs' = filter (\<lambda>x. rt_user x \<noteq> uid) rs"
    and "findIndex (\<lambda>x. rt_user x = uid) rs \<noteq> None \<Longrightarrow> length rs' = length rs"
proof -
  show "findIndex (\<lambda>x. rt_user x = uid) rs \<noteq> None \<Longrightarrow> length rs' = length rs"
    by (auto simp: rs'_def)
  have "distinct (map rt_user rs') \<and>
        filter (\<lambda>x. rt_user x = uid) rs' = [rated uid now v c] \<and>
        filter (\<lambda>x. rt_user x \<noteq> uid) rs' = filter (\<lambda>x. rt_user x \<noteq> uid) rs"
  proof (cases "findIndex (\<lambda>x. rt_user x = uid) rs")
    case None
    from findIndex_None [OF None] have no: "\<forall>x\<in>set rs. rt_user x \<noteq> uid" by simp
    then have "uid \<notin> rt_user ` set rs" by auto
    with None d no show ?thesis
      by (simp add: rs'_def filter_findIndex_None rated_def)
  next
    case (Some i)
    from findIndex_Some [OF Some] have i: "i < length rs" "rt_user (rs ! i) = uid" by auto
    let ?y = "(rs ! i)\<lparr>rt_rating := v, rt_comment := c, rt_createdAt := now\<rparr>"
    have y: "rt_user ?y = uid" using i by simp
    have yeq: "?y = rated uid now v c"
      using i by (cases "rs ! i") (simp add: rated_def)
    from update_found [OF Some d y] d Some yeq show ?thesis
      by (simp add: rs'_def)
  qed
  then show "distinct (map rt_user rs')"
    and "filter (\<lambda>x. rt_user x = uid) rs' = [rated uid now v c]"
    and "filter (\<lambda>x. rt_user x \<noteq> uid) rs' = filter (\<lambda>x. rt_user x \<noteq> uid) rs"
    by simp_all
qed



lemma expr_in_string_regex: "expr_in (BString s) (map BRegex ps) = False"
  by (auto simp: expr_in_def)

lemma timeout_run_append:
  "timeout_run f req dur (xs @ ys) s = timeout_run f req dur ys (timeout_run f req dur xs s)"
  by (induction xs arbitrary: s) simp_all

lemma step_settled:
  "headersSent s \<Longrightarrow> timer s = None \<Longrightarrow>
   headersSent (timeout_step f req dur e s) \<and> timer (timeout_step f req dur e s) = None
   \<and> sent (timeout_step f req dur e s) = sent s"
  by (cases e) (simp_all add: wrapped_send_def original_send_def Let_def)

lemma run_settled:
  "headersSent s \<Longrightarrow> timer s = None \<Longrightarrow>
   headersSent (timeout_run f req dur evs s) \<and> timer (timeout_run f req dur evs s) = None
   \<and> sent (timeout_run f req dur evs s) = sent s"
proof (induction evs arbitrary: s)
  case Nil
  then show ?case by simp
next
  case (Cons e evs)
  from step_settled [OF Cons.prems, of f req dur e] Cons.IH [of "timeout_step f req dur e s"]
  show ?case by simp
qed

lemma elapse_pending:
  "timer s = Some deadline \<Longrightarrow> \<not> headersSent s \<Longrightarrow> sent s = [] \<Longrightarrow>
   (if deadline \<le> clock s + ms
    then headersSent (timeout_step f req dur (Elapse ms) s)
         \<and> timer (timeout_step f req dur (Elapse ms) s) = None
         \<and> map status (sent (timeout_step f req dur (Elapse ms) s)) = [408]
    else timeout_step f req dur (Elapse ms) s = s\<lparr>clock := clock s + ms\<rparr>)"
  by (simp add: Let_def on_timeout_def wrapped_send_def original_send_def)

lemma silent_run:
  "silent pre \<Longrightarrow> timer s = Some deadline \<Longrightarrow> \<not> headersSent s \<Longrightarrow> sent s = [] \<Longrightarrow>
   clock s < deadline \<Longrightarrow>
   (if deadline \<le> clock s + elapsed pre
    then headersSent (timeout_run f req dur pre s) \<and> timer (timeout_run f req dur pre s) = None
         \<and> map status (sent (timeout_run f req dur pre s)) = [408]
    else timeout_run f req dur pre s = s\<lparr>clock := clock s + elapsed pre\<rparr>)"
proof (induction pre arbitrary: s rule: silent.induct)
  case 1
  then show ?case by simp
next
  case (2 ms es)
  let ?s1 = "s\<lparr>clock := clock s + ms\<rparr>"
  let ?s2 = "timeout_step f req dur (Elapse ms) s"
  note first = elapse_pending [OF "2.prems"(2,3,4), of ms f req dur]
  show ?case
  proof (cases "deadline \<le> clock s + ms")
    case True
    with first have fired: "headersSent ?s2" "timer ?s2 = None" "map status (sent ?s2) = [408]"
      by simp_all
    from run_settled [OF fired(1,2), of f req dur es] fired(3) True show ?thesis by simp
  next
    case False
    with first have st: "?s2 = ?s1" by simp
    have "silent es" using "2.prems" by simp
    from "2.IH" [OF this, of ?s1] "2.prems" False st show ?thesis
      by (simp add: add.assoc split: if_splits)
  qed
qed simp_all

lemma silent_then_408:
  assumes "silent pre" "pre \<noteq> []" "setTimeout_delay duration \<le> elapsed pre"
  shows "headersSent (timeout_run f req duration pre (timeout duration now))
     \<and> timer (timeout_run f req duration pre (timeout duration now)) = None
     \<and> map status (sent (timeout_run f req duration pre (timeout duration now))) = [408]"
proof -
  from assms(1,2) obtain ms es where pre: "pre = Elapse ms # es" "silent es"
    by (cases pre rule: silent.cases) auto
  let ?s0 = "timeout duration now"
  let ?deadline = "now + setTimeout_delay duration"
  have s0: "timer ?s0 = Some ?deadline" "\<not> headersSent ?s0" "sent ?s0 = []"
    "clock ?s0 = now"
    by (simp_all add: timeout_def)
  note first = elapse_pending [OF s0(1,2,3), of ms f req duration]
  show ?thesis
  proof (cases "?deadline \<le> clock ?s0 + ms")
    case True
    with first run_settled [of "timeout_step f req duration (Elapse ms) ?s0" f req duration es]
    show ?thesis by (simp add: pre)
  next
    case False
    let ?s1 = "?s0\<lparr>clock := clock ?s0 + ms\<rparr>"
    from False first have st: "timeout_step f req duration (Elapse ms) ?s0 = ?s1" by simp
    have "?deadline \<le> clock ?s1 + elapsed es" using assms(3) pre s0(4) by simp
    with silent_run [OF pre(2), of ?s1 ?deadline f req duration] False s0
    show ?thesis by (simp add: pre st)
  qed
qed

lemma silent_cleared:
  "silent es \<Longrightarrow> timer s = None \<Longrightarrow> sent (timeout_run f req dur es s) = sent s"
proof (induction es arbitrary: s rule: silent.induct)
  case (2 ms es)
  then have "timer (timeout_step f req dur (Elapse ms) s) = None"
    "sent (timeout_step f req dur (Elapse ms) s) = sent s"
    by (simp_all add: Let_def)
  with "2.IH" [of "timeout_step f req dur (Elapse ms) s"] "2.prems" show ?case by simp
qed simp_all

lemma delay_positive: "0 < setTimeout_delay duration"
  by (simp add: setTimeout_delay_def)

lemma step_at_most_one: "at_most_one s \<Longrightarrow> at_most_one (timeout_step f req dur e s)"
  by (cases e)
     (auto simp: at_most_one_def wrapped_send_def original_send_def Let_def on_timeout_def
           split: option.splits)

lemma run_at_most_one: "at_most_one s \<Longrightarrow> at_most_one (timeout_run f req dur evs s)"
  by (induction evs arbitrary: s) (simp_all add: step_at_most_one)

lemma errorHandler_envelope:
  "errorHandler env ts err req = Inr r \<Longrightarrow> error_envelope (body r)"
proof -
  assume a: "errorHandler env ts err req = Inr r"
  then obtain error where "classify err = Inr error"
    by (auto simp: errorHandler_def split: sum.splits)
  with a obtain code msg fields where
    "r = \<lparr>status = code,
          body = JObj [(''success'', JBool False), (''message'', JStr msg),
                       (''error'',
                        JObj ((''type'', JStr (or_text (e_name err) ''UnknownError'')) # fields))]\<rparr>"
    by (simp add: errorHandler_def Let_def) blast
  then show ?thesis by (simp add: error_envelope_def)
qed

lemma middleware_envelopes:
  "error_envelope (body (rate_limit_response p ts)) \<and> error_envelope (timeout_body f req d n)"
  by (simp add: rate_limit_response_def timeout_body_def error_envelope_def)

lemma step_descriptions_fallback:
  "step_descriptions (getFallbackRecipe t) =
     [Some (JStr (if t = [] then ''Combine ingredients and cook as desired.'' else t))]"
  by (simp add: step_descriptions_def getFallbackRecipe_def)

lemma through_limiters_others:
  "l \<notin> set ls \<Longrightarrow> snd (through_limiters ls ts now ip st) l = st l"
  by (induction ls arbitrary: st) (auto split: prod.splits option.splits)

lemma increment_entry:
  "snd (increment p now ip h) ip = Some (fst (increment p now ip h))
   \<and> (\<forall>other. other \<noteq> ip \<longrightarrow> snd (increment p now ip h) other = h other)"
  by (simp add: increment_def Let_def)

lemma increment_reset:
  "(\<forall>n resetTime. h ip = Some (n, resetTime) \<longrightarrow> resetTime \<le> now + windowMs p) \<Longrightarrow>
   now < snd (fst (increment p now ip h)) \<or> windowMs p = 0"
  "(\<forall>n resetTime. h ip = Some (n, resetTime) \<longrightarrow> resetTime \<le> now + windowMs p) \<Longrightarrow>
   snd (fst (increment p now ip h)) \<le> now + windowMs p"
  by (auto simp: increment_def Let_def split: option.splits)

lemma rate_limit_eq:
  "rate_limit p ts now ip h =
     (if max_hits p < fst (fst (increment p now ip h)) then Some (rate_limit_response p ts) else None,
      snd (increment p now ip h))"
  by (simp add: rate_limit_def Let_def split: prod.splits)

lemma through_limiters_answer:
  "distinct ls \<Longrightarrow>
   (case fst (through_limiters ls ts now ip st) of
      None \<Rightarrow> \<forall>l \<in> set ls. hit_count l now ip st \<le> max_hits (limiter_policy l)
    | Some a \<Rightarrow>
        \<exists>l \<in> set ls. max_hits (limiter_policy l) < hit_count l now ip st
          \<and> a = rate_limit_response (limiter_policy l) ts
          \<and> snd (through_limiters ls ts now ip st) l
              = snd (increment (limiter_policy l) now ip (st l)))"
proof (induction ls arbitrary: st)
  case Nil
  then show ?case by simp
next
  case (Cons l ls)
  define st1 where "st1 = st(l := snd (increment (limiter_policy l) now ip (st l)))"
  show ?case
  proof (cases "max_hits (limiter_policy l) < hit_count l now ip st")
    case True
    then show ?thesis by (simp add: rate_limit_eq hit_count_def)
  next
    case False
    then have go: "through_limiters (l # ls) ts now ip st = through_limiters ls ts now ip st1"
      by (simp add: rate_limit_eq hit_count_def st1_def)
    have same: "hit_count k now ip st1 = hit_count k now ip st" "st1 k = st k" if "k \<in> set ls" for k
      using that Cons.prems by (auto simp: hit_count_def st1_def)
    from Cons.prems have d: "distinct ls" by simp
    note ih = Cons.IH [OF d, of st1]
    show ?thesis
    proof (cases "fst (through_limiters ls ts now ip st1)")
      case None
      with ih have "\<forall>k \<in> set ls. hit_count k now ip st1 \<le> max_hits (limiter_policy k)" by simp
      with same False None show ?thesis
        by (simp del: through_limiters.simps add: go)
    next
      case (Some a)
      with ih obtain k where k: "k \<in> set ls" "max_hits (limiter_policy k) < hit_count k now ip st1"
        "a = rate_limit_response (limiter_policy k) ts"
        "snd (through_limiters ls ts now ip st1) k = snd (increment (limiter_policy k) now ip (st1 k))"
        by auto
      with same [OF k(1)] Some show ?thesis
        by (auto simp del: through_limiters.simps simp add: go)
    qed
  qed
qed

lemma within_window_mono:
  assumes "within_window st now" "now \<le> later"
  shows "within_window st later"
  unfolding within_window_def
proof (intro allI impI)
  fix l ip n resetTime
  assume "st l ip = Some (n, resetTime)"
  with assms(1) have "resetTime \<le> now + windowMs (limiter_policy l)"
    unfolding within_window_def by blast
  with assms(2) show "resetTime \<le> later + windowMs (limiter_policy l)" by simp
qed

lemma increment_window:
  assumes "within_window st now"
  shows "within_window (st(l := snd (increment (limiter_policy l) now ip (st l)))) now"
  unfolding within_window_def
proof (intro allI impI)
  fix k other n resetTime
  assume a: "(st(l := snd (increment (limiter_policy l) now ip (st l)))) k other
               = Some (n, resetTime)"
  show "resetTime \<le> now + windowMs (limiter_policy k)"
  proof (cases "k = l \<and> other = ip")
    case True
    with a have "fst (increment (limiter_policy l) now ip (st l)) = (n, resetTime)"
      by (simp add: increment_entry)
    moreover have "\<forall>n resetTime. st l ip = Some (n, resetTime) \<longrightarrow>
                     resetTime \<le> now + windowMs (limiter_policy l)"
      using assms unfolding within_window_def by blast
    ultimately show ?thesis
      using True by (auto simp: increment_def Let_def split: option.splits if_splits)
  next
    case False
    with a have "st k other = Some (n, resetTime)"
      by (auto simp: increment_entry split: if_splits)
    with assms show ?thesis unfolding within_window_def by blast
  qed
qed

lemma through_limiters_window:
  "within_window st now \<Longrightarrow> within_window (snd (through_limiters ls ts now ip st)) now"
proof (induction ls arbitrary: st)
  case Nil
  then show ?case by simp
next
  case (Cons l ls)
  define st1 where "st1 = st(l := snd (increment (limiter_policy l) now ip (st l)))"
  have w: "within_window st1 now"
    unfolding st1_def using Cons.prems by (rule increment_window)
  have "snd (through_limiters (l # ls) ts now ip st) = st1
        \<or> snd (through_limiters (l # ls) ts now ip st) = snd (through_limiters ls ts now ip st1)"
    by (simp add: rate_limit_eq st1_def)
  with w Cons.IH [OF w] show ?case by auto
qed

lemma seconds_bound:
  assumes "within_window st now"
  shows "\<exists>secs. seconds_until_reset (snd (increment (limiter_policy l) now ip (st l))) ip now = Some secs
           \<and> secs \<le> window_seconds (limiter_policy l)"
proof -
  obtain n resetTime where e: "fst (increment (limiter_policy l) now ip (st l)) = (n, resetTime)"
    by (cases "fst (increment (limiter_policy l) now ip (st l))")
  from assms have "\<forall>n resetTime. st l ip = Some (n, resetTime) \<longrightarrow> resetTime \<le> now + windowMs (limiter_policy l)"
    by (simp add: within_window_def)
  from increment_reset(2) [where h = "st l" and ip = ip and now = now
                               and p = "limiter_policy l", OF this] e have "resetTime \<le> now + windowMs (limiter_policy l)" by simp
  then have "(resetTime - now + 999) div 1000 \<le> (windowMs (limiter_policy l) + 999) div 1000"
    by (intro div_le_mono) simp
  with e increment_entry [of "limiter_policy l" now ip "st l"] show ?thesis
    by (simp add: seconds_until_reset_def window_seconds_def)
qed


lemma cast_update_allowed:
  "fst kv \<in> set allowedUpdates \<Longrightarrow> cast_update cs kv = Some a \<Longrightarrow> allowed_assignment a"
  by (auto simp: cast_update_def allowedUpdates_def)

lemma cast_updates_allowed:
  "\<forall>kv \<in> set kvs. fst kv \<in> set allowedUpdates \<Longrightarrow> cast_updates cs kvs = Some as \<Longrightarrow>
   \<forall>a \<in> set as. allowed_assignment a"
proof (induction kvs arbitrary: as)
  case Nil
  then show ?case by simp
next
  case (Cons kv kvs)
  then obtain a rest where a: "cast_update cs kv = Some a" and rest: "cast_updates cs kvs = Some rest"
    and as: "as = a # rest"
    by (auto split: option.splits)
  from Cons.prems(1) have "fst kv \<in> set allowedUpdates" by simp
  from cast_update_allowed [OF this a] Cons.IH [OF _ rest] Cons.prems(1) as show ?case by simp
qed

lemma assign_allowed:
  "allowed_assignment a \<Longrightarrow> \<exists>u'. assign a u = Inr u' \<and> frame u u'"
  by (cases a) (simp_all add: frame_def)

lemma frame_trans: "frame a b \<Longrightarrow> frame b c \<Longrightarrow> frame a c"
  by (simp add: frame_def)

lemma assign_all_allowed:
  "\<forall>a \<in> set as. allowed_assignment a \<Longrightarrow> \<exists>u'. assign_all as u = Inr u' \<and> frame u u'"
proof (induction as arbitrary: u)
  case Nil
  then show ?case by (simp add: frame_def)
next
  case (Cons a as)
  from Cons.prems assign_allowed [of a u] obtain u1 where u1: "assign a u = Inr u1" "frame u u1"
    by auto
  from Cons.IH [of u1] Cons.prems obtain u2 where "assign_all as u1 = Inr u2" "frame u1 u2"
    by auto
  with u1 show ?case by (auto intro: frame_trans)
qed

lemma allowed_keys_only:
  "\<forall>kv \<in> set (filter (\<lambda>(key, v). key \<in> set allowedUpdates) req_body).
     fst kv \<in> set allowedUpdates"
  by auto

section \<open>The claims\<close>

text \<open>
  C1. The claim: with a public recipe whose inputIngredients are chicken and broccoli in
  the store, a search for chicken and rice with minMatch 1 returns the recipe with match
  count 1. The pipeline does not: the recipe passes the first \<open>$match\<close>, but the
  \<open>$in\<close> of \<open>$addFields\<close> compares each ingredient string for equality with the
  regular expressions, so its match count is 0 and the second \<open>$match\<close> drops it.
\<close>

theorem findByIngredients_chicken_rice:
  "query_in (map BString (inputIngredients chicken_broccoli)) (map BRegex [''chicken'', ''rice''])
   \<and> findByIngredients [chicken_broccoli] [''chicken'', ''rice'']
        \<lparr>limit = 10, skip = 0, minMatch = 1\<rparr> = []"
  by code_simp

text \<open>
  The same for every store and every request that passes the route's validation
  (\<open>minMatch\<close> at least 1): the search returns no recipe.
\<close>

lemma findByIngredients_empty:
  "0 < minMatch opts \<Longrightarrow> findByIngredients store ings opts = []"
  by (simp add: findByIngredients_def expr_in_string_regex Let_def)



text \<open>
  C6. The claim: after the rate operation \<open>averageRating\<close> equals the arithmetic mean
  of the rating values. With the ratings 4 and 2 stored and a third user rating 5, the
  mean is 11/3; the stored average is the double next to it, 3.6666666666666665.
\<close>

theorem average_is_not_exact_mean:
  "map rt_rating (ratings (pre_save (rate_document ''u3'' 9 5 None rated_recipe))) = [4, 2, 5]
   \<and> mean (ratings (pre_save (rate_document ''u3'' 9 5 None rated_recipe))) = 11 / 3
   \<and> averageRating (pre_save (rate_document ''u3'' 9 5 None rated_recipe))
       = 8256599316845909 / 2251799813685248
   \<and> averageRating (pre_save (rate_document ''u3'' 9 5 None rated_recipe))
       \<noteq> mean (ratings (pre_save (rate_document ''u3'' 9 5 None rated_recipe)))"
  by code_simp

text \<open>
  C6, as the code has it. After the rate operation has changed the ratings and saved the
  recipe, \<open>totalRatings\<close> is the length of \<open>ratings\<close> (which is then not empty) and
  \<open>averageRating\<close> is the sum of the rating values divided by their number, both
  computed in double arithmetic. When every rating is one of the admitted values 1 to 5
  (an array has fewer than \<open>2^32\<close> elements), that is the arithmetic mean rounded to
  the nearest double. On an empty list \<open>updateAverageRating\<close> sets both to 0.
\<close>

theorem rate_recomputes_average:
  "totalRatings (pre_save (rate_document uid now v c r)) =
     length (ratings (pre_save (rate_document uid now v c r)))
   \<and> ratings (pre_save (rate_document uid now v c r)) \<noteq> []
   \<and> averageRating (pre_save (rate_document uid now v c r)) =
       double_div
         (foldl double_add 0 (map rt_rating (ratings (pre_save (rate_document uid now v c r)))))
         (of_nat (length (ratings (pre_save (rate_document uid now v c r)))))
   \<and> ((\<forall>x \<in> set (ratings (pre_save (rate_document uid now v c r))). valid_rating (rt_rating x))
        \<and> length (ratings (pre_save (rate_document uid now v c r))) < 2 ^ 32 \<longrightarrow>
        averageRating (pre_save (rate_document uid now v c r)) =
          round_to_double (mean (ratings (pre_save (rate_document uid now v c r)))))
   \<and> averageRating (updateAverageRating (r\<lparr>ratings := []\<rparr>)) = 0
   \<and> totalRatings (updateAverageRating (r\<lparr>ratings := []\<rparr>)) = 0"
proof -
  define r1 where "r1 = rate_document uid now v c r"
  define rs where "rs = ratings r1"
  have ne: "rs \<noteq> []"
    unfolding rs_def r1_def
    by (auto simp: ratings_rate_document split: option.split dest: findIndex_Some)
  have upd: "averageRating r1 = double_div (foldl double_add 0 (map rt_rating rs))
                                  (of_nat (length rs))
             \<and> totalRatings r1 = length rs"
  proof -
    obtain r0 where r0: "r1 = updateAverageRating r0"
      unfolding r1_def rate_document_def Let_def by blast
    then have "ratings r0 = rs" by (simp add: rs_def ratings_updateAverageRating)
    with ne updateAverageRating_mean [of r0] r0 show ?thesis by simp
  qed
  have exact: "averageRating r1 = round_to_double (mean rs)"
    if ok: "\<forall>x \<in> set rs. valid_rating (rt_rating x)" and len: "length rs < 2 ^ 32"
  proof -
    have "(0::int) + 5 * int (length (map rt_rating rs)) < 2 ^ 53" using len by simp
    moreover have "\<forall>v \<in> set (map rt_rating rs). valid_rating v" using ok by simp
    ultimately have "foldl double_add (of_int 0) (map rt_rating rs)
                       = of_int 0 + sum_list (map rt_rating rs)"
      by (intro double_sum_exact) simp_all
    with upd show ?thesis by (simp add: double_div_def mean_def)
  qed
  have empty: "averageRating (updateAverageRating (r\<lparr>ratings := []\<rparr>)) = 0
     \<and> totalRatings (updateAverageRating (r\<lparr>ratings := []\<rparr>)) = 0"
    by (simp add: updateAverageRating_def)
  have saved: "ratings (pre_save r1) = rs" "averageRating (pre_save r1) = averageRating r1"
    "totalRatings (pre_save r1) = totalRatings r1"
    by (simp_all add: pre_save_keeps_ratings rs_def)
  show ?thesis
    unfolding r1_def [symmetric] saved using ne upd exact empty by simp
qed

theorem rate_recomputes_average_witness:
  "map (\<lambda>x. valid_rating (rt_rating x))
       (ratings (pre_save (rate_document ''u1'' 9 5 None rated_recipe))) = [True, True]
   \<and> length (ratings (pre_save (rate_document ''u1'' 9 5 None rated_recipe))) < 2 ^ 32
   \<and> mean (ratings (pre_save (rate_document ''u1'' 9 5 None rated_recipe))) = 9 / 2
   \<and> averageRating (pre_save (rate_document ''u1'' 9 5 None rated_recipe)) = 9 / 2
   \<and> totalRatings (pre_save (rate_document ''u1'' 9 5 None rated_recipe)) = 2"
proof -
  have a: "ratings (pre_save (rate_document ''u1'' 9 5 None rated_recipe))
             = [rated ''u2'' 5 4 None, rated ''u1'' 9 5 None]"
    by (simp add: ratings_rate_document pre_save_keeps_ratings rated_recipe_def rated_def
          chicken_broccoli_def)
  have b: "round_to_double (9 / 2) = 9 / 2" by code_simp
  have c: "mean [rated ''u2'' 5 4 None, rated ''u1'' 9 5 None] = 9 / 2"
    by (simp add: mean_def rated_def)
  have d: "\<forall>x \<in> set [rated ''u2'' 5 4 None, rated ''u1'' 9 5 None]. valid_rating (rt_rating x)"
    by (simp add: rated_def valid_rating_def)
  from rate_recomputes_average [of "''u1''" 9 5 None rated_recipe] a b c d
  show ?thesis by simp
qed

text \<open>
  C7. With one entry per user before, rating as user \<open>uid\<close> and then again as
  \<open>uid\<close> leaves one entry per user; the second rating adds no entry, the entry of
  \<open>uid\<close> carries the second score, comment and time, and the entries of the other
  users are as they were.
\<close>

theorem rate_same_user_replaces:
  "distinct (map rt_user (ratings r)) \<Longrightarrow>
   (let r1 = rate_document uid t1 v1 c1 r; r2 = rate_document uid t2 v2 c2 r1 in
     distinct (map rt_user (ratings r1)) \<and> distinct (map rt_user (ratings r2)) \<and>
     length (ratings r2) = length (ratings r1) \<and>
     filter (\<lambda>x. rt_user x = uid) (ratings r2) = [rated uid t2 v2 c2] \<and>
     filter (\<lambda>x. rt_user x \<noteq> uid) (ratings r2) = filter (\<lambda>x. rt_user x \<noteq> uid) (ratings r))"
proof -
  assume d: "distinct (map rt_user (ratings r))"
  define r1 where "r1 = rate_document uid t1 v1 c1 r"
  define r2 where "r2 = rate_document uid t2 v2 c2 r1"
  note p1 = rate_list_props [OF d, of uid v1 c1 t1, folded ratings_rate_document, folded r1_def]
  have "filter (\<lambda>x. rt_user x = uid) (ratings r1) \<noteq> []"
    by (simp add: p1(2))
  then have found: "findIndex (\<lambda>x. rt_user x = uid) (ratings r1) \<noteq> None"
    using filter_findIndex_None by blast
  note p2 = rate_list_props [OF p1(1), of uid v2 c2 t2, folded ratings_rate_document,
              folded r2_def]
  from p1 p2(1,2,3) p2(4) [OF found]
  show ?thesis unfolding Let_def r1_def [symmetric] r2_def [symmetric] by simp
qed

theorem rate_same_user_replaces_witness:
  "distinct (map rt_user (ratings rated_recipe)) \<and>
   ratings (rate_document ''u3'' 8 1 (Some ''meh'') (rate_document ''u3'' 7 5 None rated_recipe))
     = [rated ''u2'' 5 4 None, rated ''u1'' 6 2 (Some ''bland''), rated ''u3'' 8 1 (Some ''meh'')]"
proof -
  have d: "distinct (map rt_user (ratings rated_recipe))"
    by (simp add: rated_recipe_def rated_def)
  from rate_same_user_replaces [OF d, of "''u3''" 7 5 None 8 1 "Some ''meh''"] d
  show ?thesis
    by (simp add: ratings_rate_document rated_recipe_def rated_def chicken_broccoli_def Let_def)
qed

text \<open>
  C8. The claim: unsaving a recipe that is not in the user's saved set leaves the
  user's \<open>savedRecipes\<close> and the recipe's \<open>savedByUsers\<close> unchanged. In the one-sided
  store the recipe is not in the user's set, and unsaving removes the user from the
  recipe's \<open>savedByUsers\<close>.
\<close>

theorem unsave_absent_changes_savedByUsers:
  "users one_sided ''u1'' = Some alice
   \<and> ''r1'' \<notin> set (savedRecipes alice)
   \<and> status (fst (unsaveRecipe one_sided 10 ''u1'' ''r1'')) = 200
   \<and> map_option savedByUsers (recipes one_sided ''r1'') = Some [''u1'']
   \<and> map_option savedByUsers (recipes (snd (unsaveRecipe one_sided 10 ''u1'' ''r1'')) ''r1'')
       = Some []"
  by (simp add: unsaveRecipe_def one_sided_def alice_def chicken_broccoli_def apply_defaults_def
        pre_save_def Let_def default0_def)

text \<open>
  C8, as the code has it. For an existing recipe and user: unsaving a recipe that is
  not in the user's saved set answers 200 with success, leaves the user's
  \<open>savedRecipes\<close> as it was, and leaves in the recipe's \<open>savedByUsers\<close> the entries
  other than the user
  (all of them when the user is not among them); saving a recipe that is in the user's
  saved set answers 400 "Recipe already saved" and leaves the store as it was.
\<close>

theorem unsave_absent_save_present:
  "recipes d rcp = Some stored \<Longrightarrow> users d uid = Some usr \<Longrightarrow>
   (rid stored \<notin> set (savedRecipes usr) \<longrightarrow>
      fst (unsaveRecipe d now uid rcp) =
        \<lparr>status = 200, body = message_body True ''Recipe removed from saved recipes''\<rparr>
      \<and> map_option savedRecipes (users (snd (unsaveRecipe d now uid rcp)) uid) =
          Some (savedRecipes usr)
      \<and> map_option savedByUsers (recipes (snd (unsaveRecipe d now uid rcp)) rcp) =
          Some (filter (\<lambda>userId. userId \<noteq> usr_id usr) (savedByUsers stored))
      \<and> (usr_id usr \<notin> set (savedByUsers stored) \<longrightarrow>
           map_option savedByUsers (recipes (snd (unsaveRecipe d now uid rcp)) rcp) =
             Some (savedByUsers stored)))
   \<and> (rid stored \<in> set (savedRecipes usr) \<longrightarrow>
        saveRecipe d now uid rcp =
          (\<lparr>status = 400, body = message_body False ''Recipe already saved''\<rparr>, d))"
proof -
  assume r: "recipes d rcp = Some stored" and u: "users d uid = Some usr"
  have same: "(users d)(uid \<mapsto> usr) = users d"
    using u by (simp add: map_upd_triv)
  have absent: "filter (\<lambda>recipeId. recipeId \<noteq> rid stored) (savedRecipes usr) = savedRecipes usr"
    if "rid stored \<notin> set (savedRecipes usr)"
    using that by (simp add: filter_id_conv) blast
  have others: "filter (\<lambda>userId. userId \<noteq> usr_id usr) (savedByUsers stored) = savedByUsers stored"
    if "usr_id usr \<notin> set (savedByUsers stored)"
    using that by (simp add: filter_id_conv) blast
  show ?thesis
    using r u same absent others
    by (auto simp add: unsaveRecipe_def saveRecipe_def Let_def apply_defaults_def pre_save_def
          user_save_def)
qed

theorem unsave_absent_save_present_witness:
  "recipes unsaved ''r1'' = Some chicken_broccoli \<and> users unsaved ''u1'' = Some alice
   \<and> rid chicken_broccoli \<notin> set (savedRecipes alice)
   \<and> usr_id alice \<notin> set (savedByUsers chicken_broccoli)
   \<and> status (fst (unsaveRecipe unsaved 10 ''u1'' ''r1'')) = 200
   \<and> map_option savedRecipes (users (snd (unsaveRecipe unsaved 10 ''u1'' ''r1'')) ''u1'')
       = Some []
   \<and> map_option savedByUsers (recipes (snd (unsaveRecipe unsaved 10 ''u1'' ''r1'')) ''r1'')
       = Some []
   \<and> recipes both_sided ''r1'' = Some (chicken_broccoli\<lparr>savedByUsers := [''u1'']\<rparr>)
   \<and> users both_sided ''u1'' = Some (alice\<lparr>savedRecipes := [''r1'']\<rparr>)
   \<and> rid chicken_broccoli \<in> set (savedRecipes (alice\<lparr>savedRecipes := [''r1'']\<rparr>))
   \<and> saveRecipe both_sided 10 ''u1'' ''r1'' =
       (\<lparr>status = 400, body = message_body False ''Recipe already saved''\<rparr>, both_sided)"
proof -
  have a: "recipes unsaved ''r1'' = Some chicken_broccoli" "users unsaved ''u1'' = Some alice"
    by (simp_all add: unsaved_def)
  have b: "recipes both_sided ''r1'' = Some (chicken_broccoli\<lparr>savedByUsers := [''u1'']\<rparr>)"
    "users both_sided ''u1'' = Some (alice\<lparr>savedRecipes := [''r1'']\<rparr>)"
    by (simp_all add: both_sided_def)
  have c: "rid chicken_broccoli \<notin> set (savedRecipes alice)"
    "usr_id alice \<notin> set (savedByUsers chicken_broccoli)"
    "rid (chicken_broccoli\<lparr>savedByUsers := [''u1'']\<rparr>) \<in> set (savedRecipes (alice\<lparr>savedRecipes := [''r1'']\<rparr>))"
    by (simp_all add: alice_def chicken_broccoli_def)
  have e: "savedRecipes alice = []" by (simp add: alice_def)
  from unsave_absent_save_present [OF a, of 10] unsave_absent_save_present [OF b, of 10] a b c e
  show ?thesis
    by (simp add: chicken_broccoli_def)
qed

text \<open>
  C2. The claim: every response with a status outside 2xx and a JSON body has
  \<open>success\<close> false, a \<open>message\<close> and an \<open>error\<close> object with a \<open>type\<close>, the
  fallback 404 among them. The fallback 404 has no \<open>error\<close> object at all.
\<close>

theorem fallback_404_lacks_error_type:
  "status notFound = 404 \<and> get_field (body notFound) ''success'' = Some (JBool False)
   \<and> get_field (body notFound) ''error'' = None \<and> \<not> error_envelope (body notFound)"
  by (simp add: notFound_def message_body_def error_envelope_def)

text \<open>
  C3. The claim: when the handler sends no response within the duration, exactly one
  408 is sent. A response that closes before the deadline (the client has gone away)
  clears the timer: the handler stays silent, the duration passes, and nothing is sent.
\<close>

theorem timeout_closed_sends_nothing:
  "elapsed [Close, Elapse 30000] = 30000
   \<and> sent (timeout_run stamp slow_request 30000 [Close, Elapse 30000] (timeout 30000 0)) = []
   \<and> clock (timeout_run stamp slow_request 30000 [Close, Elapse 30000] (timeout 30000 0))
       = 30000"
  by (simp add: timeout_def setTimeout_delay_def TIMEOUT_MAX_def Let_def)

text \<open>
  C3, as the code has it. A request guarded by \<open>timeout(duration)\<close>; the delay of its
  timer is the duration, or 1 millisecond for a duration outside 1 to \<open>2^31 - 1\<close>. If
  only time passes until the delay is over (no response and no close), the one response
  written is the 408, whatever happens afterwards. If the handler responds before the
  delay is over, its response is the one written, whatever happens afterwards. If the
  response closes before the delay is over and only time passes afterwards, nothing is
  written. No sequence of events writes two responses, and the timer's callback does
  nothing once the headers are sent.
\<close>

theorem timeout_sends_one_408:
  "(silent pre \<and> pre \<noteq> [] \<and> setTimeout_delay duration \<le> elapsed pre \<longrightarrow>
      map status (sent (timeout_run f req duration (pre @ rest) (timeout duration now))) = [408])
   \<and> (silent pre \<and> elapsed pre < setTimeout_delay duration \<longrightarrow>
      sent (timeout_run f req duration (pre @ Respond r # rest) (timeout duration now)) = [r])
   \<and> (silent pre \<and> elapsed pre < setTimeout_delay duration \<and> silent later \<longrightarrow>
      sent (timeout_run f req duration (pre @ Close # later) (timeout duration now)) = [])
   \<and> length (sent (timeout_run f req duration evs (timeout duration now))) \<le> 1
   \<and> (headersSent s \<longrightarrow> on_timeout f req duration s = s)"
proof (intro conjI impI)
  assume "silent pre \<and> pre \<noteq> [] \<and> setTimeout_delay duration \<le> elapsed pre"
  then have "silent pre" "pre \<noteq> []" "setTimeout_delay duration \<le> elapsed pre" by simp_all
  from silent_then_408 [OF this, of f req now]
       run_settled [of "timeout_run f req duration pre (timeout duration now)" f req duration rest]
  show "map status (sent (timeout_run f req duration (pre @ rest) (timeout duration now))) = [408]"
    by (simp add: timeout_run_append)
next
  assume a: "silent pre \<and> elapsed pre < setTimeout_delay duration"
  let ?s0 = "timeout duration now"
  let ?s1 = "timeout_run f req duration pre ?s0"
  have "clock ?s0 < now + setTimeout_delay duration"
    using delay_positive [of duration] by (simp add: timeout_def)
  from silent_run [OF conjunct1 [OF a], of ?s0 "now + setTimeout_delay duration" f req duration]
       this a
  have s1: "?s1 = ?s0\<lparr>clock := now + elapsed pre\<rparr>"
    by (simp add: timeout_def)
  let ?s2 = "timeout_step f req duration (Respond r) ?s1"
  have s2: "headersSent ?s2" "timer ?s2 = None" "sent ?s2 = [r]"
    unfolding s1 by (simp_all add: wrapped_send_def original_send_def timeout_def)
  from run_settled [OF s2(1,2), of f req duration rest] s2(3)
  show "sent (timeout_run f req duration (pre @ Respond r # rest) ?s0) = [r]"
    by (simp add: timeout_run_append)
next
  assume a: "silent pre \<and> elapsed pre < setTimeout_delay duration \<and> silent later"
  let ?s0 = "timeout duration now"
  let ?s1 = "timeout_run f req duration pre ?s0"
  have "clock ?s0 < now + setTimeout_delay duration"
    using delay_positive [of duration] by (simp add: timeout_def)
  from silent_run [OF conjunct1 [OF a], of ?s0 "now + setTimeout_delay duration" f req duration]
       this a
  have s1: "?s1 = ?s0\<lparr>clock := now + elapsed pre\<rparr>"
    by (simp add: timeout_def)
  let ?s2 = "timeout_step f req duration Close ?s1"
  have s2: "timer ?s2 = None" "sent ?s2 = []"
    unfolding s1 by (simp_all add: timeout_def)
  from a have "silent later" by simp
  from silent_cleared [OF this s2(1), of f req duration] s2(2)
  show "sent (timeout_run f req duration (pre @ Close # later) ?s0) = []"
    by (simp add: timeout_run_append)
next
  have "at_most_one (timeout duration now)" by (simp add: at_most_one_def timeout_def)
  from run_at_most_one [OF this, of f req duration evs]
  show "length (sent (timeout_run f req duration evs (timeout duration now))) \<le> 1"
    by (simp add: at_most_one_def)
next
  assume "headersSent s"
  then show "on_timeout f req duration s = s" by (simp add: on_timeout_def)
qed

theorem timeout_sends_one_408_witness:
  "silent [Elapse 10000, Elapse 20000]
   \<and> setTimeout_delay 30000 \<le> elapsed [Elapse 10000, Elapse 20000]
   \<and> map status (sent (timeout_run stamp slow_request 30000
        ([Elapse 10000, Elapse 20000] @ [Respond ok_response, Close]) (timeout 30000 0))) = [408]
   \<and> silent [Elapse 10000] \<and> elapsed [Elapse 10000] < setTimeout_delay 30000
   \<and> sent (timeout_run stamp slow_request 30000
        ([Elapse 10000] @ Respond ok_response # [Elapse 20000, Close]) (timeout 30000 0))
       = [ok_response]
   \<and> silent [Elapse 20000]
   \<and> sent (timeout_run stamp slow_request 30000
        ([Elapse 10000] @ Close # [Elapse 20000]) (timeout 30000 0)) = []
   \<and> headersSent answered \<and> on_timeout stamp slow_request 30000 answered = answered"
proof -
  have a: "silent [Elapse 10000, Elapse 20000]" "[Elapse 10000, Elapse 20000] \<noteq> []"
    "setTimeout_delay 30000 \<le> elapsed [Elapse 10000, Elapse 20000]"
    "silent [Elapse 10000]" "elapsed [Elapse 10000] < setTimeout_delay 30000"
    "silent [Elapse 20000]" "headersSent answered"
    by (simp_all add: answered_def setTimeout_delay_def TIMEOUT_MAX_def)
  from timeout_sends_one_408
         [of "[Elapse 10000, Elapse 20000]" 30000 stamp slow_request
             "[Respond ok_response, Close]" 0 ok_response "[]" "[]" answered]
       timeout_sends_one_408
         [of "[Elapse 10000]" 30000 stamp slow_request "[Elapse 20000, Close]" 0 ok_response
             "[Elapse 20000]" "[]" answered]
       a
  show ?thesis by simp
qed

text \<open>
  A duration beyond \<open>2^31 - 1\<close> milliseconds gives a timer of 1 millisecond: the 408
  goes out after one millisecond, and the handler's answer a second later is refused.
\<close>

lemma timeout_overflow:
  "map status (sent (timeout_run stamp slow_request 3000000000
        [Elapse 1, Elapse 999, Respond ok_response] (timeout 3000000000 0))) = [408]
   \<and> refused (timeout_run stamp slow_request 3000000000
        [Elapse 1, Elapse 999, Respond ok_response] (timeout 3000000000 0)) = 1"
  by (simp add: timeout_def setTimeout_delay_def TIMEOUT_MAX_def Let_def on_timeout_def
        wrapped_send_def original_send_def)

text \<open>
  C4. The claim: whenever the cleaned reply is not valid JSON or lacks a required field,
  the single instruction step of the result is the raw reply. For the empty reply (which
  is not valid JSON) the step is a fixed sentence instead.
\<close>

theorem empty_reply_counterexample:
  "\<not> (\<forall>JSON_parse t. JSON_parse [] = None \<longrightarrow> JSON_parse (clean_response t) = None \<longrightarrow>
         step_descriptions (parseRecipeResponse JSON_parse t) = [Some (JStr t)])"
proof
  assume a: "\<forall>JSON_parse t. JSON_parse [] = None \<longrightarrow> JSON_parse (clean_response t) = None \<longrightarrow>
         step_descriptions (parseRecipeResponse JSON_parse t) = [Some (JStr t)]"
  have "step_descriptions (parseRecipeResponse (\<lambda>t. None) []) = [Some (JStr [])]"
    using a [rule_format, of "\<lambda>t. None" "[]"] by simp
  then show False
    by (simp add: parseRecipeResponse_def step_descriptions_fallback)
qed

text \<open>
  C4, as the code has it. If the cleaned reply does not parse, or parses to a value
  without \<open>title\<close>, or without an array of \<open>ingredients\<close>, or without an array of
  \<open>instructions\<close>, the result is the fallback recipe; its single instruction step is
  the raw reply when the reply is not empty, and the sentence "Combine ingredients and
  cook as desired." when it is.
\<close>

theorem parse_falls_back:
  "JSON_parse (clean_response t) = None
   \<or> (\<exists>v. JSON_parse (clean_response t) = Some v
          \<and> (get_field v ''title'' = None \<or> \<not> isArray (get_field v ''ingredients'')
              \<or> \<not> isArray (get_field v ''instructions'')))
   \<Longrightarrow> parseRecipeResponse JSON_parse t = getFallbackRecipe t
       \<and> step_descriptions (parseRecipeResponse JSON_parse t) =
           [Some (JStr (if t = [] then ''Combine ingredients and cook as desired.'' else t))]"
proof -
  assume h: "JSON_parse (clean_response t) = None
   \<or> (\<exists>v. JSON_parse (clean_response t) = Some v
          \<and> (get_field v ''title'' = None \<or> \<not> isArray (get_field v ''ingredients'')
              \<or> \<not> isArray (get_field v ''instructions'')))"
  have "parseRecipeResponse JSON_parse t = getFallbackRecipe t"
  proof (cases "JSON_parse (clean_response t)")
    case None
    then show ?thesis by (simp add: parseRecipeResponse_def)
  next
    case (Some v)
    with h have bad: "get_field v ''title'' = None \<or> \<not> isArray (get_field v ''ingredients'')
              \<or> \<not> isArray (get_field v ''instructions'')" by simp
    show ?thesis
    proof (cases v)
      case (JObj kvs)
      with Some bad show ?thesis
        by (auto simp add: parseRecipeResponse_def)
    qed (use Some in \<open>simp_all add: parseRecipeResponse_def\<close>)
  qed
  then show ?thesis by (simp add: step_descriptions_fallback)
qed

theorem parse_falls_back_witness:
  "sample_parse (clean_response fenced_reply) = Some (JObj [])
   \<and> get_field (JObj []) ''title'' = None
   \<and> step_descriptions (parseRecipeResponse sample_parse fenced_reply) = [Some (JStr fenced_reply)]
   \<and> sample_parse (clean_response []) = None
   \<and> step_descriptions (parseRecipeResponse sample_parse [])
       = [Some (JStr ''Combine ingredients and cook as desired.'')]"
proof -
  have p: "sample_parse (clean_response fenced_reply) = Some (JObj [])"
    "sample_parse (clean_response []) = None"
    by code_simp+
  have ne: "fenced_reply \<noteq> []" by (simp add: fenced_reply_def)
  have h1: "sample_parse (clean_response fenced_reply) = None
     \<or> (\<exists>v. sample_parse (clean_response fenced_reply) = Some v
            \<and> (get_field v ''title'' = None \<or> \<not> isArray (get_field v ''ingredients'')
                \<or> \<not> isArray (get_field v ''instructions'')))"
    using p(1) by simp
  have h2: "sample_parse (clean_response []) = None
     \<or> (\<exists>v. sample_parse (clean_response []) = Some v
            \<and> (get_field v ''title'' = None \<or> \<not> isArray (get_field v ''ingredients'')
                \<or> \<not> isArray (get_field v ''instructions'')))"
    using p(2) by simp
  from parse_falls_back [of sample_parse fenced_reply, OF h1, THEN conjunct2]
       parse_falls_back [of sample_parse "[]", OF h2, THEN conjunct2] p ne
  show ?thesis by simp
qed

text \<open>
  C9. The claim: a request over the limit is answered 429 with a \<open>retryAfter\<close> that is
  the number of seconds until the window resets. The sixth login of a client, ten
  minutes into its window, is answered 429 with \<open>retryAfter\<close> 900; its window resets in
  300 seconds.
\<close>

theorem retryAfter_is_not_time_left:
  "map (map_option status) (fst (serve stamp login_burst (\<lambda>l. Map.empty)))
     = [None, None, None, None, None, Some 429]
   \<and> map_option retryAfter (last (fst (serve stamp login_burst (\<lambda>l. Map.empty))))
       = Some (Some (JNum 900))
   \<and> seconds_until_reset (snd (serve stamp login_burst (\<lambda>l. Map.empty)) AuthRateLimit)
       ''203.0.113.7'' 600000 = Some 300"
  by (simp add: login_burst_def rate_limit_def increment_def apiRateLimit_def authRateLimit_def
        createRateLimit_def Let_def rate_limit_response_def retryAfter_def
        seconds_until_reset_def)

text \<open>
  C9, as the code has it. The three policies are 100 requests per 15 minutes (general),
  5 per 15 minutes (authentication) and 10 per minute (AI generation). The general
  limiter stands in front of every route and the authentication limiter in front of
  register and login; each limiter counts on its own. A request passes the limiters of
  its route exactly when its hit count exceeds the maximum of none of them. Otherwise it
  is answered 429 by one of them whose maximum it exceeds, and the \<open>retryAfter\<close> of the
  body is the length of that limiter's window in seconds (900, 900 and 60), which is at
  least the number of seconds until the client's window at that limiter ends.
\<close>

theorem rate_limit_policies:
  "windowMs apiRateLimit = 15 * 60 * 1000 \<and> max_hits apiRateLimit = 100
   \<and> windowMs authRateLimit = 15 * 60 * 1000 \<and> max_hits authRateLimit = 5
   \<and> windowMs aiRateLimit = 60 * 1000 \<and> max_hits aiRateLimit = 10
   \<and> window_seconds apiRateLimit = 900 \<and> window_seconds authRateLimit = 900
   \<and> window_seconds aiRateLimit = 60
   \<and> ApiRateLimit \<in> set (route_limiters rt)
   \<and> AuthRateLimit \<in> set (route_limiters Register) \<and> AuthRateLimit \<in> set (route_limiters Login)
   \<and> (fst (through_limiters (route_limiters rt) ts now ip st) = None \<longleftrightarrow>
        (\<forall>l \<in> set (route_limiters rt). hit_count l now ip st \<le> max_hits (limiter_policy l)))
   \<and> (\<forall>a. fst (through_limiters (route_limiters rt) ts now ip st) = Some a \<longrightarrow>
        status a = 429
        \<and> (\<exists>l \<in> set (route_limiters rt).
              max_hits (limiter_policy l) < hit_count l now ip st
              \<and> a = rate_limit_response (limiter_policy l) ts
              \<and> retryAfter a = Some (JNum (of_nat (window_seconds (limiter_policy l))))
              \<and> (within_window st now \<longrightarrow>
                   (\<exists>secs. seconds_until_reset
                             (snd (through_limiters (route_limiters rt) ts now ip st) l) ip now
                             = Some secs
                           \<and> secs \<le> window_seconds (limiter_policy l)))))
   \<and> (k \<notin> set (route_limiters rt) \<longrightarrow>
        snd (through_limiters (route_limiters rt) ts now ip st) k = st k)
   \<and> within_window (\<lambda>l. Map.empty) now
   \<and> (within_window st now \<and> now \<le> later \<longrightarrow>
        within_window (snd (through_limiters (route_limiters rt) ts now ip st)) later)"
proof -
  have numbers: "windowMs apiRateLimit = 15 * 60 * 1000 \<and> max_hits apiRateLimit = 100
   \<and> windowMs authRateLimit = 15 * 60 * 1000 \<and> max_hits authRateLimit = 5
   \<and> windowMs aiRateLimit = 60 * 1000 \<and> max_hits aiRateLimit = 10
   \<and> window_seconds apiRateLimit = 900 \<and> window_seconds authRateLimit = 900
   \<and> window_seconds aiRateLimit = 60"
    by (simp add: apiRateLimit_def authRateLimit_def aiRateLimit_def createRateLimit_def
          window_seconds_def)
  have mounted: "ApiRateLimit \<in> set (route_limiters rt)
   \<and> AuthRateLimit \<in> set (route_limiters Register) \<and> AuthRateLimit \<in> set (route_limiters Login)"
    by (cases rt) simp_all
  have d: "distinct (route_limiters rt)" by (cases rt) simp_all
  note answer = through_limiters_answer [OF d, where ts = ts and now = now and ip = ip
                                              and st = st]
  have passes: "fst (through_limiters (route_limiters rt) ts now ip st) = None \<longleftrightarrow>
        (\<forall>l \<in> set (route_limiters rt). hit_count l now ip st \<le> max_hits (limiter_policy l))"
  proof (cases "fst (through_limiters (route_limiters rt) ts now ip st)")
    case None
    with answer show ?thesis by simp
  next
    case (Some a)
    with answer show ?thesis by (auto simp: not_le [symmetric])
  qed
  have refused: "status a = 429
        \<and> (\<exists>l \<in> set (route_limiters rt).
              max_hits (limiter_policy l) < hit_count l now ip st
              \<and> a = rate_limit_response (limiter_policy l) ts
              \<and> retryAfter a = Some (JNum (of_nat (window_seconds (limiter_policy l))))
              \<and> (within_window st now \<longrightarrow>
                   (\<exists>secs. seconds_until_reset
                             (snd (through_limiters (route_limiters rt) ts now ip st) l) ip now
                             = Some secs
                           \<and> secs \<le> window_seconds (limiter_policy l))))"
    if a: "fst (through_limiters (route_limiters rt) ts now ip st) = Some a" for a
  proof -
    from answer a obtain l where l: "l \<in> set (route_limiters rt)"
      "max_hits (limiter_policy l) < hit_count l now ip st"
      "a = rate_limit_response (limiter_policy l) ts"
      "snd (through_limiters (route_limiters rt) ts now ip st) l
         = snd (increment (limiter_policy l) now ip (st l))"
      by auto
    have body: "status a = 429"
      "retryAfter a = Some (JNum (of_nat (window_seconds (limiter_policy l))))"
      by (simp_all add: l(3) rate_limit_response_def retryAfter_def window_seconds_def)
    have "\<exists>secs. seconds_until_reset
                  (snd (through_limiters (route_limiters rt) ts now ip st) l) ip now = Some secs
                \<and> secs \<le> window_seconds (limiter_policy l)"
      if "within_window st now"
      unfolding l(4) using that by (rule seconds_bound)
    with l body show ?thesis by blast
  qed
  have others: "k \<notin> set (route_limiters rt) \<longrightarrow>
        snd (through_limiters (route_limiters rt) ts now ip st) k = st k"
    by (simp add: through_limiters_others)
  have start: "within_window (\<lambda>l. Map.empty) now" by (simp add: within_window_def)
  have kept: "within_window st now \<and> now \<le> later \<longrightarrow>
        within_window (snd (through_limiters (route_limiters rt) ts now ip st)) later"
    using through_limiters_window within_window_mono by blast
  from numbers mounted passes refused others start kept show ?thesis by blast
qed

theorem rate_limit_policies_witness:
  "fst (through_limiters (route_limiters Login) (stamp 600000) 600000 ''203.0.113.7''
            five_logins) = Some (rate_limit_response authRateLimit (stamp 600000))
   \<and> retryAfter (rate_limit_response authRateLimit (stamp 600000)) = Some (JNum 900)
   \<and> seconds_until_reset
         (snd (through_limiters (route_limiters Login) (stamp 600000) 600000 ''203.0.113.7''
                 five_logins) AuthRateLimit) ''203.0.113.7'' 600000 = Some 300
   \<and> AiRateLimit \<notin> set (route_limiters Login)
   \<and> snd (through_limiters (route_limiters Login) (stamp 600000) 600000 ''203.0.113.7''
            five_logins) AiRateLimit = Map.empty
   \<and> (600000 :: nat) \<le> 700000"
proof -
  have w: "within_window five_logins 600000"
    unfolding within_window_def
  proof (intro allI impI)
    fix l ip n resetTime
    assume "five_logins l ip = Some (n, resetTime)"
    then show "resetTime \<le> 600000 + windowMs (limiter_policy l)"
      by (cases l)
         (auto simp: five_logins_def apiRateLimit_def authRateLimit_def createRateLimit_def
               split: if_splits)
  qed
  have run: "fst (through_limiters (route_limiters Login) (stamp 600000) 600000 ''203.0.113.7''
            five_logins) = Some (rate_limit_response authRateLimit (stamp 600000))"
    "seconds_until_reset
         (snd (through_limiters (route_limiters Login) (stamp 600000) 600000 ''203.0.113.7''
                 five_logins) AuthRateLimit) ''203.0.113.7'' 600000 = Some 300"
    "snd (through_limiters (route_limiters Login) (stamp 600000) 600000 ''203.0.113.7''
            five_logins) AiRateLimit = Map.empty"
    by (simp_all add: rate_limit_def increment_def five_logins_def apiRateLimit_def
          authRateLimit_def createRateLimit_def Let_def seconds_until_reset_def)
  from rate_limit_policies
         [where rt = Login and ts = "stamp 600000" and now = 600000 and ip = "''203.0.113.7''"
            and st = five_logins and k = AiRateLimit and later = 700000]
       w run
  show ?thesis
    by (simp add: rate_limit_response_def retryAfter_def authRateLimit_def createRateLimit_def)
qed

text \<open>
  The AI-generation limiter is not in front of the generation route: eleven generation
  requests of one client within ten seconds all pass the limiters.
\<close>

lemma generate_not_ai_limited:
  "AiRateLimit \<notin> set (route_limiters Generate)
   \<and> fst (serve stamp generate_burst (\<lambda>l. Map.empty)) =
       [None, None, None, None, None, None, None, None, None, None, None]"
  by (simp add: generate_burst_def rate_limit_def increment_def apiRateLimit_def
        createRateLimit_def Let_def)

text \<open>
  C10. The claim: a profile update changes no field of the user other than \<open>name\<close>,
  \<open>preferences\<close> and \<open>avatar\<close>. It also sets \<open>updatedAt\<close>.
\<close>

theorem updateProfile_changes_updatedAt:
  "map_option updatedAt (users unsaved ''u1'') = Some 3
   \<and> map_option updatedAt
       (users (snd (updateProfile stamp plain_casts unsaved 10 ''u1'' [] forged_body)) ''u1'')
       = Some 10"
  by (simp add: updateProfile_def findByIdAndUpdate_def Let_def unsaved_def alice_def
        forged_body_def allowedUpdates_def cast_update_def plain_casts_def)

text \<open>
  C10, as the code has it. Whatever the request body holds, a profile update leaves the
  recipes and every other user as they were, and in the caller's document it leaves
  \<open>_id\<close>, \<open>email\<close>, the password hash, \<open>savedRecipes\<close>, \<open>createdAt\<close>,
  \<open>lastLoginAt\<close> and \<open>isActive\<close> as they were: only \<open>name\<close>, \<open>preferences\<close>,
  \<open>avatar\<close> and \<open>updatedAt\<close> can change.
\<close>

theorem updateProfile_frame:
  "recipes (snd (updateProfile f cs d now uid errors req_body)) = recipes d
   \<and> (\<forall>k. k \<noteq> uid \<longrightarrow> users (snd (updateProfile f cs d now uid errors req_body)) k = users d k)
   \<and> (case users d uid of
         None \<Rightarrow> users (snd (updateProfile f cs d now uid errors req_body)) uid = None
       | Some u \<Rightarrow>
           (\<exists>u'. users (snd (updateProfile f cs d now uid errors req_body)) uid = Some u'
                 \<and> frame u u'))"
proof -
  let ?updates = "filter (\<lambda>(key, v). key \<in> set allowedUpdates) req_body"
  let ?d' = "snd (updateProfile f cs d now uid errors req_body)"
  show ?thesis
  proof (cases "errors \<noteq> [] \<or> cast_updates cs ?updates = None \<or> users d uid = None")
    case True
    then have "?d' = d"
      by (auto simp: updateProfile_def findByIdAndUpdate_def Let_def split: option.splits)
    then show ?thesis by (auto simp: frame_def split: option.splits)
  next
    case False
    then obtain as u where as: "cast_updates cs ?updates = Some as" and u: "users d uid = Some u"
      and e: "errors = []" by auto
    from cast_updates_allowed [OF allowed_keys_only as]
    have "\<forall>a \<in> set as. allowed_assignment a" .
    from assign_all_allowed [OF this, of u] obtain u1 where u1: "assign_all as u = Inr u1"
      "frame u u1" by auto
    with as u e have d': "?d' = d\<lparr>users := (users d)(uid \<mapsto> u1\<lparr>updatedAt := now\<rparr>)\<rparr>"
      by (simp add: updateProfile_def findByIdAndUpdate_def Let_def)
    from u1(2) have "frame u (u1\<lparr>updatedAt := now\<rparr>)"
      by (simp add: frame_def)
    with d' u show ?thesis by simp
  qed
qed

theorem updateProfile_frame_witness:
  "''u2'' \<noteq> ''u1''
   \<and> users (snd (updateProfile stamp plain_casts unsaved 10 ''u1'' [] forged_body)) ''u2'' = None
   \<and> users (snd (updateProfile stamp plain_casts unsaved 10 ''u1'' [] forged_body)) ''u1''
       = Some (alice\<lparr>name := ''Mallory'', updatedAt := 10\<rparr>)
   \<and> frame alice (alice\<lparr>name := ''Mallory'', updatedAt := 10\<rparr>)"
  using updateProfile_frame [of stamp plain_casts unsaved 10 "''u1''" "[]" forged_body]
  by (simp add: updateProfile_def findByIdAndUpdate_def Let_def unsaved_def alice_def
        forged_body_def allowedUpdates_def cast_update_def plain_casts_def frame_def)

text \<open>
  The allow-list is what keeps the other fields: given the same body unfiltered, the
  store writes the e-mail address, the password, the saved recipes and the active flag.
\<close>

lemma findByIdAndUpdate_writes_any_path:
  "(case findByIdAndUpdate unsaved 10 plain_casts ''u1'' forged_body of
      Inr (Some u, d1) \<Rightarrow>
        users d1 ''u1'' = Some u \<and> name u = ''Mallory'' \<and> email u = ''mallory@cookly.io''
        \<and> password u = ''secret'' \<and> savedRecipes u = [''r9''] \<and> isActive u = False
        \<and> updatedAt u = 10
    | _ \<Rightarrow> False)"
  by (simp add: findByIdAndUpdate_def Let_def unsaved_def alice_def forged_body_def
        cast_update_def plain_casts_def)

end
